theory Spec2Isabelle
  imports Complex_Main "HOL-Library.AList"
begin

section \<open>Python values and the operations of the interpreter the module relies on\<close>

text \<open>
  The module \<^verbatim>\<open>modules/metadata_confidence.py\<close> works on dynamically typed data that comes
  out of JSON: extracted values, templates and result dictionaries are values of the type
  \<open>pyval\<close>. A dictionary is an association list in insertion order (Python dictionaries
  keep it); all dictionaries of the module are keyed by strings. A float is either a finite
  number (given by its exact value; zero has no sign), an infinity or a NaN. Strings are lists of 8-bit characters, read as the code points
  below 256.
\<close>

datatype pyfloat = Flt rat | PosInf | NegInf | NaN

datatype pyval =
    PNone
  | PBool bool
  | PInt int
  | PFloat pyfloat
  | PStr string
  | PList "pyval list"
  | PDict "(string \<times> pyval) list"

text \<open>
  Exceptions are values: the class that \<^verbatim>\<open>except\<close> clauses test, and the message that
  \<^verbatim>\<open>str(e)\<close> returns. A computation that can raise returns \<open>pyerr + 'a\<close>.
\<close>

datatype exc_class =
  ValueError | TypeError | AttributeError | KeyError | IndexError | OverflowError | ReError

datatype pyerr = Raise exc_class string

text \<open>
  Three library functions are not reimplemented: the parser behind \<^verbatim>\<open>float(str)\<close>, the
  \<^verbatim>\<open>repr\<close> of floats, strings and containers (it only ever ends up inside messages), and
  \<^verbatim>\<open>re.match\<close>. The model takes them as a parameter \<open>rt\<close> of every function that
  reaches one of them. \<open>float_of_str\<close> returns \<open>None\<close> where \<^verbatim>\<open>float\<close> raises
  \<^verbatim>\<open>ValueError\<close>; \<open>re_match\<close> returns whether a match object was found, or the
  exception that \<^verbatim>\<open>re.match\<close> raises (\<^verbatim>\<open>re.error\<close> for a pattern that does not
  compile, \<^verbatim>\<open>TypeError\<close> for a pattern that is not a string).
\<close>

record pyrt =
  float_of_str :: "string \<Rightarrow> pyfloat option"
  repr :: "pyval \<Rightarrow> string"
  re_match :: "pyval \<Rightarrow> string \<Rightarrow> pyerr + bool"

subsection \<open>Types, truth values, strings\<close>

fun type_name :: "pyval \<Rightarrow> string" where
  "type_name PNone = ''NoneType''"
| "type_name (PBool _) = ''bool''"
| "type_name (PInt _) = ''int''"
| "type_name (PFloat _) = ''float''"
| "type_name (PStr _) = ''str''"
| "type_name (PList _) = ''list''"
| "type_name (PDict _) = ''dict''"

text \<open>The truth value of an object, as \<^verbatim>\<open>if x\<close>, \<^verbatim>\<open>x and y\<close> and \<^verbatim>\<open>not x\<close> take it.\<close>

fun truthy :: "pyval \<Rightarrow> bool" where
  "truthy PNone = False"
| "truthy (PBool b) = b"
| "truthy (PInt n) = (n \<noteq> 0)"
| "truthy (PFloat f) = (f \<noteq> Flt 0)"
| "truthy (PStr s) = (s \<noteq> [])"
| "truthy (PList xs) = (xs \<noteq> [])"
| "truthy (PDict d) = (d \<noteq> [])"

text \<open>
  \<^verbatim>\<open>str.lower()\<close>: the module compares its result with ASCII literals only, so the
  characters outside \<open>A\<close>..\<open>Z\<close> are left as they are.
\<close>

definition lower_char :: "char \<Rightarrow> char" where
  "lower_char c =
     (let n = (of_char c :: nat) in if 65 \<le> n \<and> n \<le> 90 then char_of (n + 32) else c)"

definition str_lower :: "string \<Rightarrow> string" where
  "str_lower s = map lower_char s"

text \<open>\<^verbatim>\<open>x.lower()\<close> on an arbitrary object: only strings have the method.\<close>

fun py_lower :: "pyval \<Rightarrow> pyerr + string" where
  "py_lower (PStr s) = Inr (str_lower s)"
| "py_lower v =
     Inl (Raise AttributeError
       ([CHR 0x27] @ type_name v @ [CHR 0x27] @ '' object has no attribute '' @
        [CHR 0x27] @ ''lower'' @ [CHR 0x27]))"

text \<open>The decimal digits of a number that is not negative, and \<^verbatim>\<open>str\<close> of an integer.\<close>

definition digit_char :: "nat \<Rightarrow> char" where
  "digit_char d = char_of (48 + d)"

function show_digits :: "int \<Rightarrow> string" where
  "show_digits n =
     (if n < 10 then [digit_char (nat n)]
      else show_digits (n div 10) @ [digit_char (nat (n mod 10))])"
  by pat_completeness auto
termination
  by (relation "measure nat") auto

definition show_int :: "int \<Rightarrow> string" where
  "show_int i = (if i < 0 then CHR ''-'' # show_digits (- i) else show_digits i)"

text \<open>
  \<^verbatim>\<open>str(x)\<close>, which f-strings and \<^verbatim>\<open>map(str, ...)\<close> apply. The interpreter's optional limit
  on the number of digits of an integer conversion is not modelled.
\<close>

fun py_str :: "pyrt \<Rightarrow> pyval \<Rightarrow> string" where
  "py_str rt PNone = ''None''"
| "py_str rt (PBool b) = (if b then ''True'' else ''False'')"
| "py_str rt (PInt i) = show_int i"
| "py_str rt (PStr s) = s"
| "py_str rt v = repr rt v"

text \<open>\<^verbatim>\<open>sep.join(xs)\<close> for a list of strings.\<close>

fun str_join :: "string \<Rightarrow> string list \<Rightarrow> string" where
  "str_join sep [] = []"
| "str_join sep [x] = x"
| "str_join sep (x # y # ys) = x @ sep @ str_join sep (y # ys)"

subsection \<open>Numbers\<close>

text \<open>
  \<^verbatim>\<open>float(n)\<close> for an integer rounds to the nearest double (53 bits, ties to even) and
  raises \<^verbatim>\<open>OverflowError\<close> when the rounded value does not fit.
\<close>

function bit_length :: "int \<Rightarrow> nat" where
  "bit_length n = (if n \<le> 0 then 0 else Suc (bit_length (n div 2)))"
  by pat_completeness auto
termination
  by (relation "measure nat") auto

definition int_to_float :: "int \<Rightarrow> pyerr + pyfloat" where
  "int_to_float n =
     (let a = \<bar>n\<bar>;
          sh = bit_length a - 53;
          q = a div 2 ^ sh;
          r = a mod 2 ^ sh;
          q' = (if 2 ^ sh < 2 * r \<or> (2 * r = 2 ^ sh \<and> odd q) then q + 1 else q);
          m = q' * 2 ^ sh
      in if 2 ^ 1024 \<le> m then Inl (Raise OverflowError ''int too large to convert to float'')
         else Inr (Flt (of_int (sgn n * m))))"

definition float_type_error :: "pyval \<Rightarrow> pyerr" where
  "float_type_error v =
     Raise TypeError (''float() argument must be a string or a real number, not '' @
       [CHR 0x27] @ type_name v @ [CHR 0x27])"

fun py_float :: "pyrt \<Rightarrow> pyval \<Rightarrow> pyerr + pyfloat" where
  "py_float rt (PBool b) = Inr (Flt (if b then 1 else 0))"
| "py_float rt (PInt n) = int_to_float n"
| "py_float rt (PFloat f) = Inr f"
| "py_float rt (PStr s) =
     (case float_of_str rt s of
        Some f \<Rightarrow> Inr f
      | None \<Rightarrow> Inl (Raise ValueError (''could not convert string to float: '' @ repr rt (PStr s))))"
| "py_float rt v = Inl (float_type_error v)"

text \<open>Ordering of floats: a NaN is neither below nor above anything.\<close>

fun flt_lt :: "pyfloat \<Rightarrow> pyfloat \<Rightarrow> bool" where
  "flt_lt NaN _ = False"
| "flt_lt _ NaN = False"
| "flt_lt (Flt a) (Flt b) = (a < b)"
| "flt_lt (Flt a) PosInf = True"
| "flt_lt (Flt a) NegInf = False"
| "flt_lt NegInf NegInf = False"
| "flt_lt NegInf _ = True"
| "flt_lt PosInf _ = False"

text \<open>
  \<^verbatim>\<open>x < y\<close> and \<^verbatim>\<open>x > y\<close> where \<open>x\<close> is a float or the integer result of \<^verbatim>\<open>len\<close> (given as
  the float of the same value: Python compares integers and floats exactly) and \<open>y\<close> is
  whatever the template holds. Only numbers are comparable with a number.
\<close>

definition cmp_type_error :: "string \<Rightarrow> string \<Rightarrow> pyval \<Rightarrow> pyerr" where
  "cmp_type_error opr lhs v =
     Raise TypeError ([CHR 0x27] @ opr @ [CHR 0x27] @ '' not supported between instances of '' @
       [CHR 0x27] @ lhs @ [CHR 0x27] @ '' and '' @ [CHR 0x27] @ type_name v @ [CHR 0x27])"

fun as_number :: "pyval \<Rightarrow> pyfloat option" where
  "as_number (PBool b) = Some (Flt (if b then 1 else 0))"
| "as_number (PInt n) = Some (Flt (of_int n))"
| "as_number (PFloat f) = Some f"
| "as_number _ = None"

definition num_lt :: "string \<Rightarrow> pyfloat \<Rightarrow> pyval \<Rightarrow> pyerr + bool" where
  "num_lt lhs x v =
     (case as_number v of Some y \<Rightarrow> Inr (flt_lt x y) | None \<Rightarrow> Inl (cmp_type_error ''<'' lhs v))"

definition num_gt :: "string \<Rightarrow> pyfloat \<Rightarrow> pyval \<Rightarrow> pyerr + bool" where
  "num_gt lhs x v =
     (case as_number v of Some y \<Rightarrow> Inr (flt_lt y x) | None \<Rightarrow> Inl (cmp_type_error ''>'' lhs v))"

subsection \<open>Containers\<close>

definition starts_with :: "string \<Rightarrow> string \<Rightarrow> bool" where
  "starts_with s p = (take (length p) s = p)"

fun is_substring :: "string \<Rightarrow> string \<Rightarrow> bool" where
  "is_substring p [] = (p = [])"
| "is_substring p (c # s) = (starts_with (c # s) p \<or> is_substring p s)"

definition no_attribute :: "pyval \<Rightarrow> string \<Rightarrow> pyerr" where
  "no_attribute v a =
     Raise AttributeError ([CHR 0x27] @ type_name v @ [CHR 0x27] @ '' object has no attribute '' @
       [CHR 0x27] @ a @ [CHR 0x27])"

text \<open>\<^verbatim>\<open>d.get(k, default)\<close>: a method of dictionaries only.\<close>

fun py_get :: "pyval \<Rightarrow> string \<Rightarrow> pyval \<Rightarrow> pyerr + pyval" where
  "py_get (PDict d) k dflt = Inr (case map_of d k of Some v \<Rightarrow> v | None \<Rightarrow> dflt)"
| "py_get v k dflt = Inl (no_attribute v ''get'')"

text \<open>
  \<^verbatim>\<open>k in c\<close> for a string \<open>k\<close>: a key of a dictionary, an element of a list, a substring of a
  string; other objects are not containers.
\<close>

fun py_contains :: "pyval \<Rightarrow> string \<Rightarrow> pyerr + bool" where
  "py_contains (PDict d) k = Inr (k \<in> set (map fst d))"
| "py_contains (PList xs) k = Inr (PStr k \<in> set xs)"
| "py_contains (PStr s) k = Inr (is_substring k s)"
| "py_contains v k =
     Inl (Raise TypeError (''argument of type '' @ [CHR 0x27] @ type_name v @ [CHR 0x27] @
       '' is not iterable''))"

text \<open>\<^verbatim>\<open>c[k]\<close> for a string \<open>k\<close>. The message of a \<^verbatim>\<open>KeyError\<close> is the key.\<close>

fun py_subscript :: "pyval \<Rightarrow> string \<Rightarrow> pyerr + pyval" where
  "py_subscript (PDict d) k =
     (case map_of d k of Some v \<Rightarrow> Inr v | None \<Rightarrow> Inl (Raise KeyError k))"
| "py_subscript (PList xs) k =
     Inl (Raise TypeError ''list indices must be integers or slices, not str'')"
| "py_subscript (PStr s) k =
     Inl (Raise TypeError (''string indices must be integers, not '' @
       [CHR 0x27] @ ''str'' @ [CHR 0x27]))"
| "py_subscript v k =
     Inl (Raise TypeError ([CHR 0x27] @ type_name v @ [CHR 0x27] @ '' object is not subscriptable''))"

text \<open>The elements that a \<^verbatim>\<open>for\<close> loop, a comprehension or \<^verbatim>\<open>map\<close> draw from an object.\<close>

fun py_iter :: "pyval \<Rightarrow> pyerr + pyval list" where
  "py_iter (PList xs) = Inr xs"
| "py_iter (PStr s) = Inr (map (\<lambda>c. PStr [c]) s)"
| "py_iter (PDict d) = Inr (map (\<lambda>kv. PStr (fst kv)) d)"
| "py_iter v =
     Inl (Raise TypeError ([CHR 0x27] @ type_name v @ [CHR 0x27] @ '' object is not iterable''))"

text \<open>\<^verbatim>\<open>c[0]\<close>: the first element of a sequence; in a dictionary (keyed by strings) a missing key.\<close>

fun py_first :: "pyval \<Rightarrow> pyerr + pyval" where
  "py_first (PList (x # xs)) = Inr x"
| "py_first (PList []) = Inl (Raise IndexError ''list index out of range'')"
| "py_first (PStr (c # s)) = Inr (PStr [c])"
| "py_first (PStr []) = Inl (Raise IndexError ''string index out of range'')"
| "py_first (PDict d) = Inl (Raise KeyError ''0'')"
| "py_first v =
     Inl (Raise TypeError ([CHR 0x27] @ type_name v @ [CHR 0x27] @ '' object is not subscriptable''))"

text \<open>
  \<^verbatim>\<open>k in d\<close> where \<open>d\<close> is a dictionary with string keys and \<open>k\<close> any object: lists and
  dictionaries cannot be hashed, any other object that is not a string is not a key.
\<close>

fun py_key_of :: "pyval \<Rightarrow> pyerr + string option" where
  "py_key_of (PStr s) = Inr (Some s)"
| "py_key_of (PList xs) =
     Inl (Raise TypeError (''unhashable type: '' @ [CHR 0x27] @ ''list'' @ [CHR 0x27]))"
| "py_key_of (PDict d) =
     Inl (Raise TypeError (''unhashable type: '' @ [CHR 0x27] @ ''dict'' @ [CHR 0x27]))"
| "py_key_of v = Inr None"

section \<open>\<^verbatim>\<open>datetime.strptime\<close> for the formats of the module\<close>

text \<open>
  \<^verbatim>\<open>strptime\<close> turns the format into a regular expression (compiled with
  \<^verbatim>\<open>IGNORECASE\<close>), takes the first match that the backtracking matcher finds at the start
  of the string, refuses a string that has characters left after the match, and then builds
  the date, which checks the calendar. Each directive is modelled by the list of the ways
  its expression can match, in the order in which the matcher tries them; the first element
  of the combined list is the match that Python finds.

  \<^item> \<^verbatim>\<open>%Y\<close> is \<^verbatim>\<open>\d\d\d\d\<close>;
  \<^item> \<^verbatim>\<open>%m\<close> is \<^verbatim>\<open>1[0-2]|0[1-9]|[1-9]\<close>;
  \<^item> \<^verbatim>\<open>%d\<close> is \<^verbatim>\<open>3[0-1]|[1-2]\d|0[1-9]|[1-9]| [1-9]\<close>;
  \<^item> \<^verbatim>\<open>%H\<close> is \<^verbatim>\<open>2[0-3]|[0-1]\d|\d\<close>;
  \<^item> \<^verbatim>\<open>%M\<close> is \<^verbatim>\<open>[0-5]\d|\d\<close>;
  \<^item> \<^verbatim>\<open>%S\<close> is \<^verbatim>\<open>6[0-1]|[0-5]\d|\d\<close>;
  \<^item> a run of white space in the format is \<^verbatim>\<open>\s+\<close>; any other character stands for itself.
\<close>

definition in_range :: "nat \<Rightarrow> nat \<Rightarrow> char \<Rightarrow> bool" where
  "in_range lo hi c = (48 + lo \<le> (of_char c :: nat) \<and> (of_char c :: nat) \<le> 48 + hi)"

definition digit_val :: "char \<Rightarrow> nat" where
  "digit_val c = (of_char c :: nat) - 48"

definition is_space :: "char \<Rightarrow> bool" where
  "is_space c = ((of_char c :: nat) \<in> set [9, 10, 11, 12, 13, 28, 29, 30, 31, 32, 133, 160])"

definition two_digits :: "nat \<Rightarrow> nat \<Rightarrow> nat \<Rightarrow> nat \<Rightarrow> string \<Rightarrow> (nat \<times> string) list" where
  "two_digits a b c d s =
     (case s of
        x # y # r \<Rightarrow>
          if in_range a b x \<and> in_range c d y then [(10 * digit_val x + digit_val y, r)] else []
      | _ \<Rightarrow> [])"

definition one_digit :: "nat \<Rightarrow> nat \<Rightarrow> string \<Rightarrow> (nat \<times> string) list" where
  "one_digit a b s =
     (case s of x # r \<Rightarrow> if in_range a b x then [(digit_val x, r)] else [] | _ \<Rightarrow> [])"

definition space_digit :: "string \<Rightarrow> (nat \<times> string) list" where
  "space_digit s =
     (case s of
        x # y # r \<Rightarrow> if x = CHR '' '' \<and> in_range 1 9 y then [(digit_val y, r)] else []
      | _ \<Rightarrow> [])"

definition re_Y :: "string \<Rightarrow> (nat \<times> string) list" where
  "re_Y s =
     (case s of
        a # b # c # d # r \<Rightarrow>
          if in_range 0 9 a \<and> in_range 0 9 b \<and> in_range 0 9 c \<and> in_range 0 9 d
          then [(1000 * digit_val a + 100 * digit_val b + 10 * digit_val c + digit_val d, r)]
          else []
      | _ \<Rightarrow> [])"

definition re_m :: "string \<Rightarrow> (nat \<times> string) list" where
  "re_m s = two_digits 1 1 0 2 s @ two_digits 0 0 1 9 s @ one_digit 1 9 s"

definition re_d :: "string \<Rightarrow> (nat \<times> string) list" where
  "re_d s =
     two_digits 3 3 0 1 s @ two_digits 1 2 0 9 s @ two_digits 0 0 1 9 s @ one_digit 1 9 s @
     space_digit s"

definition re_H :: "string \<Rightarrow> (nat \<times> string) list" where
  "re_H s = two_digits 2 2 0 3 s @ two_digits 0 1 0 9 s @ one_digit 0 9 s"

definition re_M :: "string \<Rightarrow> (nat \<times> string) list" where
  "re_M s = two_digits 0 5 0 9 s @ one_digit 0 9 s"

definition re_S :: "string \<Rightarrow> (nat \<times> string) list" where
  "re_S s = two_digits 6 6 0 1 s @ two_digits 0 5 0 9 s @ one_digit 0 9 s"

text \<open>\<^verbatim>\<open>\s+\<close> is greedy: the longest run first, then the shorter ones.\<close>

definition re_ws :: "string \<Rightarrow> string list" where
  "re_ws s = map (\<lambda>k. drop k s) (rev [1 ..< Suc (length (takeWhile is_space s))])"

definition re_lit :: "char \<Rightarrow> string \<Rightarrow> string list" where
  "re_lit c s =
     (case s of x # r \<Rightarrow> if lower_char x = lower_char c then [r] else [] | [] \<Rightarrow> [])"

datatype fmt_item = FY | Fm | Fd | FH | FM | FS | FWs | FLit char

text \<open>
  The format string, read left to right. Only the six directives that the formats of the
  module use are known; any other one makes the format unusable (\<open>None\<close>).
\<close>

fun directive :: "char \<Rightarrow> fmt_item option" where
  "directive c =
     (if c = CHR ''Y'' then Some FY else if c = CHR ''m'' then Some Fm
      else if c = CHR ''d'' then Some Fd else if c = CHR ''H'' then Some FH
      else if c = CHR ''M'' then Some FM else if c = CHR ''S'' then Some FS
      else None)"

function parse_format :: "string \<Rightarrow> fmt_item list option" where
  "parse_format [] = Some []"
| "parse_format (c # s) =
     (if c = CHR ''%'' then
        (case s of
           [] \<Rightarrow> None
         | d # s' \<Rightarrow>
             (case directive d of
                None \<Rightarrow> None
              | Some i \<Rightarrow> map_option ((#) i) (parse_format s')))
      else if is_space c then map_option ((#) FWs) (parse_format (dropWhile is_space s))
      else map_option ((#) (FLit c)) (parse_format s))"
  by pat_completeness auto
termination
  by (relation "measure length") (auto simp: less_Suc_eq_le length_dropWhile_le)

record datetime =
  year :: nat
  month :: nat
  day :: nat
  hour :: nat
  minute :: nat
  second :: nat

definition epoch :: datetime where
  "epoch = \<lparr>year = 1900, month = 1, day = 1, hour = 0, minute = 0, second = 0\<rparr>"

fun match_item :: "fmt_item \<Rightarrow> datetime \<Rightarrow> string \<Rightarrow> (datetime \<times> string) list" where
  "match_item FY t s = map (\<lambda>(n, r). (t\<lparr>year := n\<rparr>, r)) (re_Y s)"
| "match_item Fm t s = map (\<lambda>(n, r). (t\<lparr>month := n\<rparr>, r)) (re_m s)"
| "match_item Fd t s = map (\<lambda>(n, r). (t\<lparr>day := n\<rparr>, r)) (re_d s)"
| "match_item FH t s = map (\<lambda>(n, r). (t\<lparr>hour := n\<rparr>, r)) (re_H s)"
| "match_item FM t s = map (\<lambda>(n, r). (t\<lparr>minute := n\<rparr>, r)) (re_M s)"
| "match_item FS t s = map (\<lambda>(n, r). (t\<lparr>second := n\<rparr>, r)) (re_S s)"
| "match_item FWs t s = map (\<lambda>r. (t, r)) (re_ws s)"
| "match_item (FLit c) t s = map (\<lambda>r. (t, r)) (re_lit c s)"

fun match_items :: "fmt_item list \<Rightarrow> datetime \<Rightarrow> string \<Rightarrow> (datetime \<times> string) list" where
  "match_items [] t s = [(t, s)]"
| "match_items (i # is) t s = concat (map (\<lambda>(t', r). match_items is t' r) (match_item i t s))"

definition is_leap :: "nat \<Rightarrow> bool" where
  "is_leap y = (y mod 4 = 0 \<and> (y mod 100 \<noteq> 0 \<or> y mod 400 = 0))"

definition days_in_month :: "nat \<Rightarrow> nat \<Rightarrow> nat" where
  "days_in_month y m =
     (if m = 2 then (if is_leap y then 29 else 28)
      else if m \<in> set [4, 6, 9, 11] then 30 else 31)"

text \<open>
  Every failure of \<^verbatim>\<open>strptime\<close> on a string is a \<^verbatim>\<open>ValueError\<close>. The module discards
  the messages; the ones that quote the input are shortened here.
\<close>

definition strptime :: "string \<Rightarrow> string \<Rightarrow> pyerr + datetime" where
  "strptime data_string fmt =
     (case parse_format fmt of
        None \<Rightarrow> Inl (Raise ValueError ''bad directive in format'')
      | Some items \<Rightarrow>
          (case match_items items epoch data_string of
             [] \<Rightarrow> Inl (Raise ValueError ''time data does not match format'')
           | (t, rest) # _ \<Rightarrow>
               if rest \<noteq> [] then Inl (Raise ValueError (''unconverted data remains: '' @ rest))
               else if year t = 0 then Inl (Raise ValueError ''year 0 is out of range'')
               else if days_in_month (year t) (month t) < day t
                 then Inl (Raise ValueError ''day is out of range for month'')
               else if 59 < second t then Inl (Raise ValueError ''second must be in 0..59'')
               else Inr t))"

section \<open>The Field Validator\<close>

subsection \<open>\<^verbatim>\<open>validate_field_type\<close>\<close>

definition date_formats :: "string list" where
  "date_formats =
     [''%Y-%m-%d'', ''%m/%d/%Y'', ''%d/%m/%Y'', ''%Y-%m-%dT%H:%M:%S'', ''%Y-%m-%d %H:%M:%S'']"

text \<open>
  The loop over the formats: a \<^verbatim>\<open>ValueError\<close> of \<^verbatim>\<open>strptime\<close> moves on to the next format,
  the first format that parses returns.
\<close>

fun try_date_formats :: "string \<Rightarrow> string list \<Rightarrow> pyerr + (bool \<times> string)" where
  "try_date_formats v [] = Inr (False, ''Date format not recognized'')"
| "try_date_formats v (fmt # fmts) =
     (case strptime v fmt of
        Inr _ \<Rightarrow> Inr (True, ''Valid date (format: '' @ fmt @ '')'')
      | Inl (Raise c msg) \<Rightarrow> if c = ValueError then try_date_formats v fmts else Inl (Raise c msg))"

text \<open>The body of the \<^verbatim>\<open>try\<close> block.\<close>

definition validate_field_type_try :: "pyrt \<Rightarrow> pyval \<Rightarrow> pyval \<Rightarrow> pyerr + (bool \<times> string)" where
  "validate_field_type_try rt v field_type =
     (case py_lower field_type of
        Inl e \<Rightarrow> Inl e
      | Inr t \<Rightarrow>
          if t = ''string'' then
            (case v of
               PStr _ \<Rightarrow> Inr (True, ''Valid string'')
             | _ \<Rightarrow> Inr (False, ''Expected string, got '' @ type_name v))
          else if t = ''number'' then
            (case py_float rt v of
               Inl e \<Rightarrow> Inl e
             | Inr _ \<Rightarrow> Inr (True, ''Valid number''))
          else if t = ''date'' then
            (case v of
               PStr s \<Rightarrow> try_date_formats s date_formats
             | _ \<Rightarrow> Inr (False, ''Expected date string, got '' @ type_name v))
          else if t = ''boolean'' then
            (case v of
               PBool _ \<Rightarrow> Inr (True, ''Valid boolean'')
             | PStr s \<Rightarrow>
                 if str_lower s \<in> set [''true'', ''false'', ''yes'', ''no'', ''1'', ''0'']
                 then Inr (True, ''Valid boolean string'')
                 else Inr (False, ''Expected boolean, got '' @ type_name v)
             | _ \<Rightarrow> Inr (False, ''Expected boolean, got '' @ type_name v))
          else if t = ''enum'' then Inr (True, ''Enum type needs template validation'')
          else Inr (False, ''Unknown field type: '' @ py_str rt field_type))"

text \<open>
  \<^verbatim>\<open>except (ValueError, TypeError) as e\<close>: these two classes become a result, every other
  exception leaves the function.
\<close>

fun except_value_type :: "pyerr + (bool \<times> string) \<Rightarrow> pyerr + (bool \<times> string)" where
  "except_value_type (Inr r) = Inr r"
| "except_value_type (Inl (Raise c msg)) =
     (if c = ValueError \<or> c = TypeError then Inr (False, ''Validation failed: '' @ msg)
      else Inl (Raise c msg))"

definition validate_field_type :: "pyrt \<Rightarrow> pyval \<Rightarrow> pyval \<Rightarrow> pyerr + (bool \<times> string)" where
  "validate_field_type rt v field_type =
     (if v = PNone then Inr (False, ''Value is required'')
      else except_value_type (validate_field_type_try rt v field_type))"

subsection \<open>\<^verbatim>\<open>validate_against_template\<close>\<close>

text \<open>
  The result dictionary has the same four keys on every path, so it is a record;
  \<open>suggested_correction\<close> is \<open>PNone\<close> where the dictionary holds \<^verbatim>\<open>None\<close>.
\<close>

record validation =
  is_valid :: bool
  confidence :: string
  reasoning :: "string list"
  suggested_correction :: pyval

definition initial_result :: validation where
  "initial_result =
     \<lparr>is_valid = False, confidence = ''Low'', reasoning = [], suggested_correction = PNone\<rparr>"

text \<open>A template is a dictionary; \<^verbatim>\<open>template.get('fields', {})\<close>:\<close>

definition template_fields :: "(string \<times> pyval) list \<Rightarrow> pyval" where
  "template_fields template = (case map_of template ''fields'' of Some v \<Rightarrow> v | None \<Rightarrow> PDict [])"

text \<open>
  The three blocks of additional validations. Each gets the field definition (a dictionary,
  since \<^verbatim>\<open>field_def.get\<close> has succeeded before), the value and the result so far, and returns
  the result of the function if it returns inside the block, and \<open>None\<close> if control reaches
  the end of the block.
\<close>

definition check_enum ::
  "pyrt \<Rightarrow> (string \<times> pyval) list \<Rightarrow> pyval \<Rightarrow> validation \<Rightarrow> pyerr + validation option" where
  "check_enum rt field_def v result =
     (let enum_values = (case map_of field_def ''options'' of Some x \<Rightarrow> x | None \<Rightarrow> PList []) in
      case py_iter enum_values of
        Inl e \<Rightarrow> Inl e
      | Inr elems \<Rightarrow>
          if py_str rt v \<notin> set (map (py_str rt) elems) then
            (let msg = ''Value '' @ [CHR 0x27] @ py_str rt v @ [CHR 0x27] @
                       '' not in allowed values: '' @ str_join '', '' (map (py_str rt) elems) in
             case (if truthy enum_values then py_first enum_values else Inr PNone) of
               Inl e \<Rightarrow> Inl e
             | Inr sc \<Rightarrow>
                 Inr (Some (result\<lparr>reasoning := reasoning result @ [msg],
                                    suggested_correction := sc, confidence := ''Low''\<rparr>)))
          else Inr None)"

definition check_max ::
  "pyrt \<Rightarrow> (string \<times> pyval) list \<Rightarrow> pyfloat \<Rightarrow> validation \<Rightarrow> pyerr + validation option" where
  "check_max rt field_def num_value result =
     (case map_of field_def ''max'' of
        None \<Rightarrow> Inr None
      | Some mx \<Rightarrow>
          (case num_gt ''float'' num_value mx of
             Inl e \<Rightarrow> Inl e
           | Inr is_above \<Rightarrow>
               if is_above then
                 Inr (Some (result\<lparr>reasoning := reasoning result @
                                      [''Value '' @ py_str rt (PFloat num_value) @
                                       '' is above maximum '' @ py_str rt mx],
                                    suggested_correction := mx, confidence := ''Low''\<rparr>))
               else Inr None))"

definition check_number ::
  "pyrt \<Rightarrow> (string \<times> pyval) list \<Rightarrow> pyval \<Rightarrow> validation \<Rightarrow> pyerr + validation option" where
  "check_number rt field_def v result =
     (case py_float rt v of
        Inl e \<Rightarrow> Inl e
      | Inr num_value \<Rightarrow>
          (case map_of field_def ''min'' of
             None \<Rightarrow> check_max rt field_def num_value result
           | Some mn \<Rightarrow>
               (case num_lt ''float'' num_value mn of
                  Inl e \<Rightarrow> Inl e
                | Inr is_below \<Rightarrow>
                    if is_below then
                      Inr (Some (result\<lparr>reasoning := reasoning result @
                                           [''Value '' @ py_str rt (PFloat num_value) @
                                            '' is below minimum '' @ py_str rt mn],
                                         suggested_correction := mn, confidence := ''Low''\<rparr>))
                    else check_max rt field_def num_value result)))"

definition check_pattern ::
  "pyrt \<Rightarrow> (string \<times> pyval) list \<Rightarrow> string \<Rightarrow> validation \<Rightarrow> pyerr + validation option" where
  "check_pattern rt field_def str_value result =
     (case map_of field_def ''pattern'' of
        None \<Rightarrow> Inr None
      | Some pat \<Rightarrow>
          (case re_match rt pat str_value of
             Inl e \<Rightarrow> Inl e
           | Inr matched \<Rightarrow>
               if \<not> matched then
                 Inr (Some (result\<lparr>reasoning := reasoning result @
                                      [''String does not match expected pattern: '' @ py_str rt pat],
                                    confidence := ''Medium''\<rparr>))
               else Inr None))"

definition check_max_length ::
  "pyrt \<Rightarrow> (string \<times> pyval) list \<Rightarrow> string \<Rightarrow> validation \<Rightarrow> pyerr + validation option" where
  "check_max_length rt field_def str_value result =
     (case map_of field_def ''max_length'' of
        None \<Rightarrow> check_pattern rt field_def str_value result
      | Some ml \<Rightarrow>
          (case num_gt ''int'' (Flt (of_nat (length str_value))) ml of
             Inl e \<Rightarrow> Inl e
           | Inr too_long \<Rightarrow>
               if too_long then
                 Inr (Some (result\<lparr>reasoning := reasoning result @
                                      [''String is too long (max '' @ py_str rt ml @ '' characters)''],
                                    confidence := ''Medium''\<rparr>))
               else check_pattern rt field_def str_value result))"

definition check_string ::
  "pyrt \<Rightarrow> (string \<times> pyval) list \<Rightarrow> pyval \<Rightarrow> validation \<Rightarrow> pyerr + validation option" where
  "check_string rt field_def v result =
     (let str_value = py_str rt v in
      case map_of field_def ''min_length'' of
        None \<Rightarrow> check_max_length rt field_def str_value result
      | Some ml \<Rightarrow>
          (case num_lt ''int'' (Flt (of_nat (length str_value))) ml of
             Inl e \<Rightarrow> Inl e
           | Inr too_short \<Rightarrow>
               if too_short then
                 Inr (Some (result\<lparr>reasoning := reasoning result @
                                      [''String is too short (min '' @ py_str rt ml @ '' characters)''],
                                    confidence := ''Medium''\<rparr>))
               else check_max_length rt field_def str_value result))"

text \<open>The \<^verbatim>\<open>if\<close>/\<^verbatim>\<open>elif\<close> chain over \<^verbatim>\<open>field_type.lower()\<close>.\<close>

definition additional_checks ::
  "pyrt \<Rightarrow> (string \<times> pyval) list \<Rightarrow> pyval \<Rightarrow> pyval \<Rightarrow> validation \<Rightarrow> pyerr + validation option" where
  "additional_checks rt field_def field_type v result =
     (case py_lower field_type of
        Inl e \<Rightarrow> Inl e
      | Inr t \<Rightarrow>
          if t = ''enum'' then check_enum rt field_def v result
          else if t = ''number'' then check_number rt field_def v result
          else if t = ''string'' then check_string rt field_def v result
          else Inr None)"

definition validate_against_template ::
  "pyrt \<Rightarrow> string \<Rightarrow> pyval \<Rightarrow> (string \<times> pyval) list \<Rightarrow> pyerr + validation" where
  "validate_against_template rt field_name v template =
     (case py_contains (template_fields template) field_name of
        Inl e \<Rightarrow> Inl e
      | Inr found \<Rightarrow>
          if \<not> found then
            Inr (initial_result\<lparr>reasoning :=
                   [''Field '' @ [CHR 0x27] @ field_name @ [CHR 0x27] @ '' not found in template'']\<rparr>)
          else
            (case py_subscript (template_fields template) field_name of
               Inl e \<Rightarrow> Inl e
             | Inr (PDict field_def) \<Rightarrow>
                 (let field_type = (case map_of field_def ''type'' of
                                      Some t \<Rightarrow> t | None \<Rightarrow> PStr ''string'');
                      required = (case map_of field_def ''required'' of
                                    Some r \<Rightarrow> r | None \<Rightarrow> PBool False);
                      empty = (v = PNone \<or> v = PStr [])
                  in
                  if truthy required \<and> empty then
                    Inr (initial_result\<lparr>reasoning := [''Required field is missing or empty'']\<rparr>)
                  else if empty then
                    Inr (initial_result\<lparr>is_valid := True, confidence := ''High'',
                                         reasoning := [''Optional field is empty'']\<rparr>)
                  else
                    (case validate_field_type rt v field_type of
                       Inl e \<Rightarrow> Inl e
                     | Inr (valid, reason) \<Rightarrow>
                         (let result = initial_result\<lparr>reasoning := [''Type validation: '' @ reason]\<rparr> in
                          if \<not> valid then Inr (result\<lparr>confidence := ''Low''\<rparr>)
                          else
                            (case additional_checks rt field_def field_type v result of
                               Inl e \<Rightarrow> Inl e
                             | Inr (Some r) \<Rightarrow> Inr r
                             | Inr None \<Rightarrow> Inr (result\<lparr>is_valid := True, confidence := ''High''\<rparr>)))))
             | Inr other \<Rightarrow> Inl (no_attribute other ''get'')))"

section \<open>The Confidence Aggregator\<close>

subsection \<open>\<^verbatim>\<open>enhance_confidence_with_template\<close>\<close>

text \<open>
  The enhanced result of a field is a dictionary again: the functions that consume it
  (\<^verbatim>\<open>calculate_overall_confidence\<close>, \<^verbatim>\<open>format_confidence_results\<close>) read it with
  \<^verbatim>\<open>get\<close> and subscripts.
\<close>

definition enhanced_entry :: "pyval \<Rightarrow> validation \<Rightarrow> pyval" where
  "enhanced_entry v r =
     PDict ([(''value'', v), (''confidence'', PStr (confidence r)),
             (''reasoning'', PList (map PStr (reasoning r))), (''is_valid'', PBool (is_valid r))] @
            (if suggested_correction r \<noteq> PNone
             then [(''suggested_correction'', suggested_correction r)] else []))"

definition missing_entry :: pyval where
  "missing_entry =
     PDict [(''value'', PNone), (''confidence'', PStr ''Low''),
            (''reasoning'', PList [PStr ''Required field is missing'']), (''is_valid'', PBool False)]"

text \<open>The first loop, over the items of \<^verbatim>\<open>extracted_data\<close>; \<open>acc\<close> is \<^verbatim>\<open>enhanced_results\<close>.\<close>

fun process_fields ::
  "pyrt \<Rightarrow> (string \<times> pyval) list \<Rightarrow> (string \<times> pyval) list \<Rightarrow> (string \<times> pyval) list \<Rightarrow>
   pyerr + (string \<times> pyval) list" where
  "process_fields rt template [] acc = Inr acc"
| "process_fields rt template ((field_name, v) # rest) acc =
     (if starts_with field_name ''_'' then process_fields rt template rest acc
      else
        (case validate_against_template rt field_name v template of
           Inl e \<Rightarrow> Inl e
         | Inr r \<Rightarrow>
             process_fields rt template rest (AList.update field_name (enhanced_entry v r) acc)))"

text \<open>The second loop, over the items of \<^verbatim>\<open>template['fields']\<close>.\<close>

fun sweep_required ::
  "(string \<times> pyval) list \<Rightarrow> (string \<times> pyval) list \<Rightarrow> pyerr + (string \<times> pyval) list" where
  "sweep_required [] acc = Inr acc"
| "sweep_required ((field_name, field_def) # rest) acc =
     (case py_get field_def ''required'' (PBool False) of
        Inl e \<Rightarrow> Inl e
      | Inr required \<Rightarrow>
          sweep_required rest
            (if truthy required \<and> field_name \<notin> set (map fst acc)
             then AList.update field_name missing_entry acc else acc))"

definition enhance_confidence_with_template ::
  "pyrt \<Rightarrow> (string \<times> pyval) list \<Rightarrow> (string \<times> pyval) list \<Rightarrow> pyerr + (string \<times> pyval) list" where
  "enhance_confidence_with_template rt extracted_data template =
     (case process_fields rt template extracted_data [] of
        Inl e \<Rightarrow> Inl e
      | Inr enhanced_results \<Rightarrow>
          (case map_of template ''fields'' of
             None \<Rightarrow> Inr enhanced_results
           | Some (PDict field_defs) \<Rightarrow> sweep_required field_defs enhanced_results
           | Some other \<Rightarrow> Inl (no_attribute other ''items'')))"

subsection \<open>\<^verbatim>\<open>calculate_overall_confidence\<close>\<close>

text \<open>
  One round of the counting loop: \<^verbatim>\<open>field_data.get('confidence', 'Low')\<close>, the test
  \<^verbatim>\<open>confidence in confidence_counts\<close> and the increment.
\<close>

definition count_confidence :: "(string \<times> nat) list \<Rightarrow> pyval \<Rightarrow> pyerr + (string \<times> nat) list" where
  "count_confidence confidence_counts field_data =
     (case py_get field_data ''confidence'' (PStr ''Low'') of
        Inl e \<Rightarrow> Inl e
      | Inr c \<Rightarrow>
          (case py_key_of c of
             Inl e \<Rightarrow> Inl e
           | Inr None \<Rightarrow> Inr confidence_counts
           | Inr (Some k) \<Rightarrow>
               (case map_of confidence_counts k of
                  None \<Rightarrow> Inr confidence_counts
                | Some n \<Rightarrow> Inr (AList.update k (n + 1) confidence_counts))))"

fun count_confidences :: "(string \<times> nat) list \<Rightarrow> pyval list \<Rightarrow> pyerr + (string \<times> nat) list" where
  "count_confidences confidence_counts [] = Inr confidence_counts"
| "count_confidences confidence_counts (field_data # rest) =
     (case count_confidence confidence_counts field_data of
        Inl e \<Rightarrow> Inl e
      | Inr counts' \<Rightarrow> count_confidences counts' rest)"

definition count_of :: "(string \<times> nat) list \<Rightarrow> string \<Rightarrow> nat" where
  "count_of confidence_counts k = (case map_of confidence_counts k of Some n \<Rightarrow> n | None \<Rightarrow> 0)"

text \<open>
  The two percentages are quotients of integers, which Python computes in binary floating
  point and compares with the literals \<^verbatim>\<open>0.7\<close> and \<^verbatim>\<open>0.6\<close>. The model computes them as
  exact rationals.
\<close>

definition calculate_overall_confidence :: "(string \<times> pyval) list \<Rightarrow> pyerr + string" where
  "calculate_overall_confidence enhanced_results =
     (if enhanced_results = [] then Inr ''Low''
      else
        (case count_confidences [(''High'', 0), (''Medium'', 0), (''Low'', 0)]
                (map snd enhanced_results) of
           Inl e \<Rightarrow> Inl e
         | Inr confidence_counts \<Rightarrow>
             (let total_fields = length enhanced_results;
                  high_pct = (of_nat (count_of confidence_counts ''High'') :: rat) / of_nat total_fields;
                  medium_pct = (of_nat (count_of confidence_counts ''Medium'') :: rat) / of_nat total_fields
              in if 7 / 10 \<le> high_pct then Inr ''High''
                 else if 6 / 10 \<le> high_pct + medium_pct then Inr ''Medium''
                 else Inr ''Low'')))"

subsection \<open>\<^verbatim>\<open>format_confidence_results\<close>\<close>

text \<open>\<^verbatim>\<open>sep.join(x)\<close>: \<open>x\<close> must be iterable and all its elements strings.\<close>

fun first_non_str :: "nat \<Rightarrow> pyval list \<Rightarrow> (nat \<times> pyval) option" where
  "first_non_str i [] = None"
| "first_non_str i (PStr s # xs) = first_non_str (Suc i) xs"
| "first_non_str i (x # xs) = Some (i, x)"

fun the_str :: "pyval \<Rightarrow> string" where
  "the_str (PStr s) = s"
| "the_str _ = []"

definition py_join :: "string \<Rightarrow> pyval \<Rightarrow> pyerr + string" where
  "py_join sep x =
     (case py_iter x of
        Inl e \<Rightarrow> Inl (Raise TypeError ''can only join an iterable'')
      | Inr xs \<Rightarrow>
          (case first_non_str 0 xs of
             Some (i, y) \<Rightarrow>
               Inl (Raise TypeError (''sequence item '' @ show_digits (int i) @ '': expected str instance, '' @
                      type_name y @ '' found''))
           | None \<Rightarrow> Inr (str_join sep (map the_str xs))))"

text \<open>The loop over the items of \<^verbatim>\<open>enhanced_results\<close>; \<open>acc\<close> is \<^verbatim>\<open>formatted\<close>.\<close>

fun format_fields ::
  "bool \<Rightarrow> (string \<times> pyval) list \<Rightarrow> (string \<times> pyval) list \<Rightarrow> pyerr + (string \<times> pyval) list" where
  "format_fields include_reasoning [] acc = Inr acc"
| "format_fields include_reasoning ((field_name, field_data) # rest) acc =
     (case py_subscript field_data ''value'' of
        Inl e \<Rightarrow> Inl e
      | Inr v \<Rightarrow>
          (case py_subscript field_data ''confidence'' of
             Inl e \<Rightarrow> Inl e
           | Inr c \<Rightarrow>
               (let acc' = AList.update (field_name @ ''_confidence'') c
                             (AList.update field_name v acc) in
                if include_reasoning then
                  (case py_get field_data ''reasoning'' PNone of
                     Inl e \<Rightarrow> Inl e
                   | Inr rs \<Rightarrow>
                       if truthy rs then
                         (case py_join '' '' rs of
                            Inl e \<Rightarrow> Inl e
                          | Inr joined \<Rightarrow>
                              format_fields include_reasoning rest
                                (AList.update (field_name @ ''_reasoning'') (PStr joined) acc'))
                       else format_fields include_reasoning rest acc')
                else format_fields include_reasoning rest acc')))"

definition format_confidence_results ::
  "(string \<times> pyval) list \<Rightarrow> bool \<Rightarrow> pyerr + (string \<times> pyval) list" where
  "format_confidence_results enhanced_results include_reasoning =
     (case format_fields include_reasoning enhanced_results [] of
        Inl e \<Rightarrow> Inl e
      | Inr formatted \<Rightarrow>
          (case calculate_overall_confidence enhanced_results of
             Inl e \<Rightarrow> Inl e
           | Inr overall \<Rightarrow> Inr (AList.update ''_overall_confidence'' (PStr overall) formatted)))"

section \<open>A runtime for concrete evaluations\<close>

text \<open>
  Closed statements need a concrete runtime. This one is a fragment of CPython's, defined
  where the evaluations below use it and answering with a placeholder elsewhere:
  \<^item> \<^verbatim>\<open>float\<close> converts a string of one to fifteen decimal digits to the number it denotes,
    and takes every other string as one that \<^verbatim>\<open>float\<close> refuses;
  \<^item> \<^verbatim>\<open>repr\<close> of a string of printable ASCII characters without quote or backslash is the
    string in single quotes, and \<^verbatim>\<open>repr\<close> of a float with an integral value below \<open>10^16\<close> is
    the integer followed by \<^verbatim>\<open>.0\<close>;
  \<^item> \<^verbatim>\<open>re.match\<close> with a pattern made of letters and digits only tests whether the string
    starts with the pattern, and refuses a pattern that is not a string.
\<close>

definition sample_float_of_str :: "string \<Rightarrow> pyfloat option" where
  "sample_float_of_str s =
     (if s \<noteq> [] \<and> length s \<le> 15 \<and> list_all (in_range 0 9) s
      then Some (Flt (of_int (foldl (\<lambda>n c. 10 * n + int (digit_val c)) 0 s))) else None)"

definition plain_char :: "char \<Rightarrow> bool" where
  "plain_char c =
     (let n = (of_char c :: nat) in 32 \<le> n \<and> n < 127 \<and> n \<noteq> 39 \<and> n \<noteq> 92)"

definition alnum_char :: "char \<Rightarrow> bool" where
  "alnum_char c =
     (let n = (of_char c :: nat)
      in (48 \<le> n \<and> n \<le> 57) \<or> (65 \<le> n \<and> n \<le> 90) \<or> (97 \<le> n \<and> n \<le> 122))"

fun sample_repr :: "pyval \<Rightarrow> string" where
  "sample_repr (PStr s) =
     (if list_all plain_char s then [CHR 0x27] @ s @ [CHR 0x27] else ''<str>'')"
| "sample_repr (PFloat (Flt q)) =
     (case quotient_of q of
        (n, d) \<Rightarrow> if d = 1 \<and> \<bar>n\<bar> < 10 ^ 16 then show_int n @ ''.0'' else ''<float>'')"
| "sample_repr v = ''<object>''"

fun sample_re_match :: "pyval \<Rightarrow> string \<Rightarrow> pyerr + bool" where
  "sample_re_match (PStr p) s =
     (if list_all alnum_char p then Inr (starts_with s p)
      else Inl (Raise ReError ''pattern outside the fragment''))"
| "sample_re_match v s = Inl (Raise TypeError ''first argument must be string or compiled pattern'')"

definition sample_rt :: pyrt where
  "sample_rt =
     \<lparr>float_of_str = sample_float_of_str, repr = sample_repr, re_match = sample_re_match\<rparr>"

section \<open>Notions used to state the properties\<close>

text \<open>
  The confidence that the counting loop reads from an entry
  (\<^verbatim>\<open>field_data.get('confidence', 'Low')\<close>), the number of entries of a tier, and the
  entries on which the loop cannot fail: dictionaries whose confidence can be hashed.
\<close>

definition confidence_of :: "pyval \<Rightarrow> pyval" where
  "confidence_of e =
     (case e of
        PDict d \<Rightarrow> (case map_of d ''confidence'' of Some c \<Rightarrow> c | None \<Rightarrow> PStr ''Low'')
      | _ \<Rightarrow> PNone)"

definition tier_count :: "string \<Rightarrow> (string \<times> pyval) list \<Rightarrow> nat" where
  "tier_count t er = length (filter (\<lambda>e. confidence_of (snd e) = PStr t) er)"

definition countable_entry :: "pyval \<Rightarrow> bool" where
  "countable_entry e =
     (case e of
        PDict d \<Rightarrow> (case confidence_of e of PList _ \<Rightarrow> False | PDict _ \<Rightarrow> False | _ \<Rightarrow> True)
      | _ \<Rightarrow> False)"

text \<open>A format parses a string when \<^verbatim>\<open>strptime\<close> returns a date for it.\<close>

definition parses :: "string \<Rightarrow> string \<Rightarrow> bool" where
  "parses s fmt = (case strptime s fmt of Inr _ \<Rightarrow> True | Inl _ \<Rightarrow> False)"

text \<open>
  The invariant of a validation result, and the same invariant read off the dictionary of an
  enhanced field result.
\<close>
definition verdict_ok :: "validation \<Rightarrow> bool" where
  "verdict_ok r =
     (confidence r \<in> set [''High'', ''Medium'', ''Low''] \<and>
      (is_valid r \<longrightarrow> confidence r = ''High'') \<and>
      (suggested_correction r \<noteq> PNone \<longrightarrow> \<not> is_valid r \<and> confidence r = ''Low''))"

definition entry_ok :: "pyval \<Rightarrow> bool" where
  "entry_ok e =
     (case e of
        PDict d \<Rightarrow>
          map_of d ''confidence'' \<in> set [Some (PStr ''High''), Some (PStr ''Medium''), Some (PStr ''Low'')] \<and>
          (map_of d ''is_valid'' = Some (PBool True) \<longrightarrow> map_of d ''confidence'' = Some (PStr ''High'')) \<and>
          (case map_of d ''suggested_correction'' of
             None \<Rightarrow> True
           | Some sc \<Rightarrow>
               sc \<noteq> PNone \<and> map_of d ''is_valid'' = Some (PBool False) \<and>
               map_of d ''confidence'' = Some (PStr ''Low''))
      | _ \<Rightarrow> False)"

text \<open>
  What the flattening reads from an entry, and the keys it writes for a field: the name, the
  name with \<^verbatim>\<open>_confidence\<close>, and the name with \<^verbatim>\<open>_reasoning\<close> when reasoning is asked for
  and the entry has some.
\<close>
definition entry_value :: "pyval \<Rightarrow> pyval" where
  "entry_value e = (case py_subscript e ''value'' of Inr v \<Rightarrow> v | Inl _ \<Rightarrow> PNone)"

definition entry_confidence :: "pyval \<Rightarrow> pyval" where
  "entry_confidence e = (case py_subscript e ''confidence'' of Inr c \<Rightarrow> c | Inl _ \<Rightarrow> PNone)"

definition has_reasoning :: "bool \<Rightarrow> pyval \<Rightarrow> bool" where
  "has_reasoning include_reasoning e =
     (include_reasoning \<and> (case py_get e ''reasoning'' PNone of Inr r \<Rightarrow> truthy r | Inl _ \<Rightarrow> False))"

definition field_keys :: "bool \<Rightarrow> string \<times> pyval \<Rightarrow> string list" where
  "field_keys include_reasoning p =
     [fst p, fst p @ ''_confidence''] @
     (if has_reasoning include_reasoning (snd p) then [fst p @ ''_reasoning''] else [])"

definition flat_keys :: "bool \<Rightarrow> (string \<times> pyval) list \<Rightarrow> string list" where
  "flat_keys include_reasoning er = concat (map (field_keys include_reasoning) er)"

text \<open>
  Feeding an output back: the extracted data made of the \<^verbatim>\<open>value\<close> entries of the output.
  The verdict of an entry is its \<^verbatim>\<open>is_valid\<close> and its \<^verbatim>\<open>confidence\<close>. A template's field mapping is
  a dictionary, so its keys are pairwise different; an association list says so explicitly.
\<close>
definition feed_back :: "(string \<times> pyval) list \<Rightarrow> (string \<times> pyval) list" where
  "feed_back out = map (\<lambda>p. (fst p, entry_value (snd p))) out"

definition verdict_of :: "pyval \<Rightarrow> pyval option \<times> pyval option" where
  "verdict_of e =
     (case e of PDict d \<Rightarrow> (map_of d ''is_valid'', map_of d ''confidence'') | _ \<Rightarrow> (None, None))"

definition fields_keys_distinct :: "(string \<times> pyval) list \<Rightarrow> bool" where
  "fields_keys_distinct template =
     (case map_of template ''fields'' of Some (PDict fs) \<Rightarrow> distinct (map fst fs) | _ \<Rightarrow> True)"

text \<open>
  Input on which the operations are meant to work. A value fits a double unless it is an
  integer that \<^verbatim>\<open>float\<close> cannot convert. A field declaration is well formed for a value when it
  is a dictionary whose type is a string and whose entries for that type can be used: a list
  of options for an enumeration; numeric bounds and a value that fits a double for a number;
  numeric length bounds and a pattern that \<^verbatim>\<open>re.match\<close> accepts for a string.
\<close>
definition fits_double :: "pyval \<Rightarrow> bool" where
  "fits_double v =
     (case v of PInt n \<Rightarrow> (case int_to_float n of Inr _ \<Rightarrow> True | Inl _ \<Rightarrow> False) | _ \<Rightarrow> True)"

definition numeric_or_absent :: "pyval option \<Rightarrow> bool" where
  "numeric_or_absent x = (case x of None \<Rightarrow> True | Some v \<Rightarrow> as_number v \<noteq> None)"

definition well_formed_decl :: "pyrt \<Rightarrow> pyval \<Rightarrow> pyval \<Rightarrow> bool" where
  "well_formed_decl rt v field_def =
     (case field_def of
        PDict d \<Rightarrow>
          (case (case map_of d ''type'' of Some t \<Rightarrow> t | None \<Rightarrow> PStr ''string'') of
             PStr t \<Rightarrow>
               if str_lower t = ''enum'' then
                 (case map_of d ''options'' of
                    None \<Rightarrow> True | Some (PList _) \<Rightarrow> True | Some _ \<Rightarrow> False)
               else if str_lower t = ''number'' then
                 fits_double v \<and> numeric_or_absent (map_of d ''min'') \<and>
                 numeric_or_absent (map_of d ''max'')
               else if str_lower t = ''string'' then
                 numeric_or_absent (map_of d ''min_length'') \<and>
                 numeric_or_absent (map_of d ''max_length'') \<and>
                 (case map_of d ''pattern'' of
                    None \<Rightarrow> True
                  | Some p \<Rightarrow> (case re_match rt p (py_str rt v) of Inr _ \<Rightarrow> True | Inl _ \<Rightarrow> False))
               else True
           | _ \<Rightarrow> False)
      | _ \<Rightarrow> False)"

section \<open>Auxiliary facts\<close>

subsection \<open>Lookups\<close>

lemma map_of_key: "map_of d k = Some v \<Longrightarrow> k \<in> fst ` set d"
  by (metis domI dom_map_of_conv_image_fst)

lemma template_fields_Some:
  "map_of template ''fields'' = Some f \<Longrightarrow> template_fields template = f"
  by (simp add: template_fields_def)

lemma validate_field_type_enum:
  "py_lower ft = Inr ''enum'' \<Longrightarrow> v \<noteq> PNone \<Longrightarrow>
   validate_field_type rt v ft = Inr (True, ''Enum type needs template validation'')"
  by (simp add: validate_field_type_def validate_field_type_try_def)

subsection \<open>The counting loop\<close>

lemma count_of_update:
  "count_of (AList.update k v al) k' = (if k' = k then v else count_of al k')"
  by (simp add: count_of_def update_conv')

lemma count_confidence_step:
  assumes "countable_entry e"
  shows "\<exists>c'. count_confidence counts e = Inr c' \<and> map fst c' = map fst counts \<and>
           (\<forall>k. k \<in> set (map fst counts) \<longrightarrow>
              count_of c' k = count_of counts k + (if confidence_of e = PStr k then 1 else 0))"
proof -
  from assms obtain d where e: "e = PDict d"
    by (cases e) (auto simp: countable_entry_def)
  let ?c = "confidence_of e"
  have get: "py_get e ''confidence'' (PStr ''Low'') = Inr ?c"
    by (simp add: e confidence_of_def)
  show ?thesis
  proof (cases ?c)
    case (PStr s)
    show ?thesis
    proof (cases "map_of counts s")
      case None
      then have "s \<notin> set (map fst counts)"
        by (simp add: map_of_eq_None_iff)
      with None PStr get show ?thesis
        by (auto simp: count_confidence_def)
    next
      case (Some n)
      then have "s \<in> set (map fst counts)"
        by (metis map_of_eq_None_iff option.distinct(1) set_map)
      moreover from Some have "count_of counts s = n"
        by (simp add: count_of_def)
      ultimately show ?thesis
        using Some PStr get by (auto simp: count_confidence_def count_of_update update_keys)
    qed
  next
    case (PList xs)
    with assms e show ?thesis by (simp add: countable_entry_def)
  next
    case (PDict xs)
    with assms e show ?thesis by (simp add: countable_entry_def)
  qed (use get in \<open>auto simp: count_confidence_def\<close>)
qed

lemma count_confidences_total:
  "list_all countable_entry es \<Longrightarrow>
   \<exists>c'. count_confidences counts es = Inr c' \<and> map fst c' = map fst counts \<and>
     (\<forall>k. k \<in> set (map fst counts) \<longrightarrow>
        count_of c' k = count_of counts k + length (filter (\<lambda>e. confidence_of e = PStr k) es))"
proof (induction es arbitrary: counts)
  case Nil
  then show ?case by simp
next
  case (Cons e es)
  from Cons.prems have e: "countable_entry e" and es: "list_all countable_entry es"
    by simp_all
  from count_confidence_step [OF e, of counts] obtain c1 where
    c1: "count_confidence counts e = Inr c1" "map fst c1 = map fst counts"
      "\<forall>k. k \<in> set (map fst counts) \<longrightarrow>
          count_of c1 k = count_of counts k + (if confidence_of e = PStr k then 1 else 0)"
    by blast
  from Cons.IH [OF es, of c1] obtain c2 where
    c2: "count_confidences c1 es = Inr c2" "map fst c2 = map fst c1"
      "\<forall>k. k \<in> set (map fst c1) \<longrightarrow>
          count_of c2 k = count_of c1 k + length (filter (\<lambda>e. confidence_of e = PStr k) es)"
    by blast
  show ?case
    using c1 c2 by auto
qed

subsection \<open>The loop over the date formats\<close>

lemma strptime_raises_ValueError: "strptime s fmt = Inl (Raise c msg) \<Longrightarrow> c = ValueError"
  by (auto simp: strptime_def split: option.splits list.splits if_splits)

lemma try_date_formats_find:
  "try_date_formats s fmts =
     Inr (case List.find (parses s) fmts of
            Some fmt \<Rightarrow> (True, ''Valid date (format: '' @ fmt @ '')'')
          | None \<Rightarrow> (False, ''Date format not recognized''))"
proof (induction fmts)
  case Nil
  show ?case by simp
next
  case (Cons fmt fmts)
  show ?case
  proof (cases "strptime s fmt")
    case (Inr t)
    then show ?thesis by (simp add: parses_def)
  next
    case (Inl e)
    obtain c msg where e: "e = Raise c msg" by (cases e)
    with Inl strptime_raises_ValueError have "c = ValueError" by blast
    with Inl e Cons.IH show ?thesis by (simp add: parses_def)
  qed
qed

lemma strptime_jan_2nd:
  "strptime ''01/02/2023'' ''%m/%d/%Y'' =
     Inr \<lparr>year = 2023, month = 1, day = 2, hour = 0, minute = 0, second = 0\<rparr>"
  by code_simp

lemma try_date_formats_ambiguous:
  "try_date_formats ''01/02/2023'' date_formats = Inr (True, ''Valid date (format: %m/%d/%Y)'')"
  by code_simp

lemma try_date_formats_iso:
  "try_date_formats ''2023-01-01'' date_formats = Inr (True, ''Valid date (format: %Y-%m-%d)'')"
  by code_simp

lemma try_date_formats_no_match:
  "try_date_formats ''13/45/2023'' date_formats = Inr (False, ''Date format not recognized'')"
  by code_simp

lemma no_format_parses_13_45: "list_all (\<lambda>fmt. \<not> parses ''13/45/2023'' fmt) date_formats"
  by code_simp

subsection \<open>The two loops of the aggregator\<close>

lemma map_of_update_alist: "map_of (AList.update k v al) k' = (if k' = k then Some v else map_of al k')"
  by (simp add: update_conv')

lemma keys_update: "set (map fst (AList.update k v al)) = insert k (set (map fst al))"
  by (auto simp: update_keys)

lemma keys_update_image: "fst ` set (AList.update k v al) = insert k (fst ` set al)"
  using keys_update [of k v al] by simp

lemma process_fields_keys:
  "process_fields rt t d acc = Inr out \<Longrightarrow>
   set (map fst out) = set (map fst acc) \<union> {n \<in> fst ` set d. \<not> starts_with n ''_''}"
proof (induction d arbitrary: acc)
  case Nil
  then show ?case by simp
next
  case (Cons p d)
  obtain n v where p: "p = (n, v)" by (cases p)
  show ?case
  proof (cases "starts_with n ''_''")
    case True
    with Cons p show ?thesis by auto
  next
    case False
    with Cons.prems p obtain r where
      r: "validate_against_template rt n v t = Inr r"
      and rest: "process_fields rt t d (AList.update n (enhanced_entry v r) acc) = Inr out"
      by (auto split: sum.splits)
    from Cons.IH [OF rest] False p show ?thesis
      by (auto simp: keys_update_image)
  qed
qed

lemma process_fields_entry:
  "process_fields rt t d acc = Inr out \<Longrightarrow> map_of out n = Some e \<Longrightarrow>
   map_of acc n = Some e \<or>
   (\<exists>v r. (n, v) \<in> set d \<and> \<not> starts_with n ''_'' \<and>
          validate_against_template rt n v t = Inr r \<and> e = enhanced_entry v r)"
proof (induction d arbitrary: acc)
  case Nil
  then show ?case by simp
next
  case (Cons p d)
  obtain m v where p: "p = (m, v)" by (cases p)
  show ?case
  proof (cases "starts_with m ''_''")
    case True
    with Cons p show ?thesis by auto
  next
    case False
    with Cons.prems p obtain r where
      r: "validate_against_template rt m v t = Inr r"
      and rest: "process_fields rt t d (AList.update m (enhanced_entry v r) acc) = Inr out"
      by (auto split: sum.splits)
    from Cons.IH [OF rest Cons.prems(2)] r False p show ?thesis
      by (auto simp: map_of_update_alist split: if_splits)
  qed
qed

lemma sweep_required_keeps:
  "sweep_required fs acc = Inr out \<Longrightarrow> map_of acc n = Some e \<Longrightarrow> map_of out n = Some e"
proof (induction fs arbitrary: acc)
  case Nil
  then show ?case by simp
next
  case (Cons p fs)
  obtain m fd where p: "p = (m, fd)" by (cases p)
  from Cons.prems(1) p obtain rq where
    rq: "py_get fd ''required'' (PBool False) = Inr rq"
    and rest: "sweep_required fs (if truthy rq \<and> m \<notin> set (map fst acc)
               then AList.update m missing_entry acc else acc) = Inr out"
    by (auto split: sum.splits)
  have "map_of (if truthy rq \<and> m \<notin> set (map fst acc)
               then AList.update m missing_entry acc else acc) n = Some e"
    using Cons.prems(2) map_of_key [OF Cons.prems(2)]
    by (auto simp: map_of_update_alist)
  from Cons.IH [OF rest this] show ?case .
qed

lemma sweep_required_adds:
  "sweep_required fs acc = Inr out \<Longrightarrow> (n, fd) \<in> set fs \<Longrightarrow>
   py_get fd ''required'' (PBool False) = Inr rq \<Longrightarrow> truthy rq \<Longrightarrow>
   n \<notin> set (map fst acc) \<Longrightarrow> map_of out n = Some missing_entry"
proof (induction fs arbitrary: acc)
  case Nil
  then show ?case by simp
next
  case (Cons p fs)
  obtain m fd' where p: "p = (m, fd')" by (cases p)
  from Cons.prems(1) p obtain rq' where
    rq': "py_get fd' ''required'' (PBool False) = Inr rq'"
    and rest: "sweep_required fs (if truthy rq' \<and> m \<notin> set (map fst acc)
               then AList.update m missing_entry acc else acc) = Inr out"
    by (auto split: sum.splits)
  let ?acc = "if truthy rq' \<and> m \<notin> set (map fst acc) then AList.update m missing_entry acc else acc"
  show ?case
  proof (cases "n \<in> set (map fst ?acc)")
    case True
    with Cons.prems(5) have "m = n" "truthy rq'"
      by (auto simp: keys_update_image split: if_splits)
    with Cons.prems(5) have "map_of ?acc n = Some missing_entry"
      by (simp add: map_of_update_alist)
    from sweep_required_keeps [OF rest this] show ?thesis .
  next
    case False
    with Cons.prems p rq' have "(n, fd) \<in> set fs"
      by (auto simp: keys_update_image split: if_splits)
    from Cons.IH [OF rest this Cons.prems(3,4) False] show ?thesis .
  qed
qed

lemma sweep_required_entry:
  "sweep_required fs acc = Inr out \<Longrightarrow> map_of out n = Some e \<Longrightarrow>
   map_of acc n = Some e \<or>
   (e = missing_entry \<and> n \<notin> set (map fst acc) \<and>
    (\<exists>fd rq. (n, fd) \<in> set fs \<and> py_get fd ''required'' (PBool False) = Inr rq \<and> truthy rq))"
proof (induction fs arbitrary: acc)
  case Nil
  then show ?case by simp
next
  case (Cons p fs)
  obtain m fd' where p: "p = (m, fd')" by (cases p)
  from Cons.prems(1) p obtain rq' where
    rq': "py_get fd' ''required'' (PBool False) = Inr rq'"
    and rest: "sweep_required fs (if truthy rq' \<and> m \<notin> set (map fst acc)
               then AList.update m missing_entry acc else acc) = Inr out"
    by (auto split: sum.splits)
  from Cons.IH [OF rest Cons.prems(2)] rq' p show ?case
    by (auto simp: map_of_update_alist keys_update_image split: if_splits)
qed

subsection \<open>The verdicts of the validator\<close>

lemma check_enum_verdict:
  "check_enum rt fd v res = Inr (Some r) \<Longrightarrow> \<not> is_valid res \<Longrightarrow> verdict_ok r"
  by (auto simp: check_enum_def Let_def verdict_ok_def split: sum.splits if_splits)

lemma check_max_verdict:
  "check_max rt fd x res = Inr (Some r) \<Longrightarrow> \<not> is_valid res \<Longrightarrow> verdict_ok r"
  by (auto simp: check_max_def verdict_ok_def split: sum.splits if_splits option.splits)

lemma check_number_verdict:
  "check_number rt fd v res = Inr (Some r) \<Longrightarrow> \<not> is_valid res \<Longrightarrow> verdict_ok r"
  by (auto simp: check_number_def verdict_ok_def dest: check_max_verdict
      split: sum.splits if_splits option.splits)

lemma check_pattern_verdict:
  "check_pattern rt fd s res = Inr (Some r) \<Longrightarrow> \<not> is_valid res \<Longrightarrow>
   suggested_correction res = PNone \<Longrightarrow> verdict_ok r"
  by (auto simp: check_pattern_def verdict_ok_def split: sum.splits if_splits option.splits)

lemma check_max_length_verdict:
  "check_max_length rt fd s res = Inr (Some r) \<Longrightarrow> \<not> is_valid res \<Longrightarrow>
   suggested_correction res = PNone \<Longrightarrow> verdict_ok r"
  by (auto simp: check_max_length_def verdict_ok_def dest: check_pattern_verdict
      split: sum.splits if_splits option.splits)

lemma check_string_verdict:
  "check_string rt fd v res = Inr (Some r) \<Longrightarrow> \<not> is_valid res \<Longrightarrow>
   suggested_correction res = PNone \<Longrightarrow> verdict_ok r"
  by (auto simp: check_string_def Let_def verdict_ok_def dest: check_max_length_verdict
      split: sum.splits if_splits option.splits)

lemma additional_checks_verdict:
  "additional_checks rt fd ft v res = Inr (Some r) \<Longrightarrow> \<not> is_valid res \<Longrightarrow>
   suggested_correction res = PNone \<Longrightarrow> verdict_ok r"
  by (auto simp: additional_checks_def
      dest: check_enum_verdict check_number_verdict check_string_verdict
      split: sum.splits if_splits)

lemma validate_against_template_verdict:
  assumes "validate_against_template rt n v t = Inr r"
  shows "verdict_ok r"
proof -
  have a: "verdict_ok (initial_result\<lparr>reasoning := rs\<rparr>)"
    "verdict_ok (initial_result\<lparr>reasoning := rs, confidence := ''Low''\<rparr>)"
    "verdict_ok (initial_result\<lparr>is_valid := True, confidence := ''High'', reasoning := rs\<rparr>)"
    "verdict_ok (initial_result\<lparr>reasoning := rs, is_valid := True, confidence := ''High''\<rparr>)" for rs
    by (simp_all add: verdict_ok_def initial_result_def)
  have b: "\<not> is_valid (initial_result\<lparr>reasoning := rs\<rparr>)"
    "suggested_correction (initial_result\<lparr>reasoning := rs\<rparr>) = PNone" for rs
    by (simp_all add: initial_result_def)
  from assms show ?thesis
    by (auto simp: validate_against_template_def Let_def a
        dest: additional_checks_verdict [OF _ b]
        split: sum.splits if_splits pyval.splits prod.splits option.splits)
qed

lemma enhanced_entry_ok: "verdict_ok r \<Longrightarrow> entry_ok (enhanced_entry v r)"
  by (auto simp: verdict_ok_def entry_ok_def enhanced_entry_def)

lemma missing_entry_ok: "entry_ok missing_entry"
  by (simp add: entry_ok_def missing_entry_def)

lemma process_fields_distinct:
  "process_fields rt t d acc = Inr out \<Longrightarrow> distinct (map fst acc) \<Longrightarrow> distinct (map fst out)"
proof (induction d arbitrary: acc)
  case Nil
  then show ?case by simp
next
  case (Cons p d)
  obtain n v where p: "p = (n, v)" by (cases p)
  from Cons.prems p show ?case
    by (auto simp: distinct_update split: if_splits sum.splits intro: Cons.IH)
qed

lemma sweep_required_distinct:
  "sweep_required fs acc = Inr out \<Longrightarrow> distinct (map fst acc) \<Longrightarrow> distinct (map fst out)"
proof (induction fs arbitrary: acc)
  case Nil
  then show ?case by simp
next
  case (Cons p fs)
  obtain n fd where p: "p = (n, fd)" by (cases p)
  from Cons.prems p show ?case
    by (auto simp: distinct_update split: if_splits sum.splits intro: Cons.IH)
qed

lemma enhance_distinct:
  "enhance_confidence_with_template rt d t = Inr out \<Longrightarrow> distinct (map fst out)"
  by (auto simp: enhance_confidence_with_template_def
      split: sum.splits option.splits pyval.splits
      dest: process_fields_distinct sweep_required_distinct)

lemma enhance_entry:
  assumes "enhance_confidence_with_template rt d t = Inr out" and "map_of out n = Some e"
  shows "(\<exists>v r. (n, v) \<in> set d \<and> \<not> starts_with n ''_'' \<and>
            validate_against_template rt n v t = Inr r \<and> e = enhanced_entry v r) \<or>
         e = missing_entry"
proof -
  from assms(1) obtain acc where acc: "process_fields rt t d [] = Inr acc"
    by (auto simp: enhance_confidence_with_template_def split: sum.splits)
  have "map_of acc n = Some e \<or> e = missing_entry"
    using assms acc
    by (auto simp: enhance_confidence_with_template_def
        split: sum.splits option.splits pyval.splits dest: sweep_required_entry)
  with process_fields_entry [OF acc, of n e] show ?thesis
    by auto
qed

subsection \<open>The flattening loop\<close>

lemma format_fields_Cons:
  assumes "format_fields incl ((n, e) # er) acc = Inr out"
  shows "\<exists>j. format_fields incl er
            (if has_reasoning incl e
             then AList.update (n @ ''_reasoning'') (PStr j)
                    (AList.update (n @ ''_confidence'') (entry_confidence e)
                       (AList.update n (entry_value e) acc))
             else AList.update (n @ ''_confidence'') (entry_confidence e)
                    (AList.update n (entry_value e) acc)) = Inr out"
  using assms
  by (auto simp: has_reasoning_def entry_value_def entry_confidence_def Let_def
      split: sum.splits if_splits)

lemma format_fields_flat:
  "format_fields incl er acc = Inr out \<Longrightarrow> distinct (map fst acc @ flat_keys incl er) \<Longrightarrow>
   map fst out = map fst acc @ flat_keys incl er \<and>
   (\<forall>k. k \<in> set (map fst acc) \<longrightarrow> map_of out k = map_of acc k) \<and>
   (\<forall>p \<in> set er. map_of out (fst p) = Some (entry_value (snd p)) \<and>
                  map_of out (fst p @ ''_confidence'') = Some (entry_confidence (snd p)))"
proof (induction er arbitrary: acc)
  case Nil
  then show ?case by (simp add: flat_keys_def)
next
  case (Cons p er)
  obtain n e where p: "p = (n, e)" by (cases p)
  let ?a1 = "AList.update (n @ ''_confidence'') (entry_confidence e)
               (AList.update n (entry_value e) acc)"
  from format_fields_Cons [OF Cons.prems(1) [unfolded p]] obtain j where
    rest: "format_fields incl er
            (if has_reasoning incl e then AList.update (n @ ''_reasoning'') (PStr j) ?a1 else ?a1) = Inr out"
    by blast
  let ?a2 = "if has_reasoning incl e then AList.update (n @ ''_reasoning'') (PStr j) ?a1 else ?a1"
  have fk: "flat_keys incl (p # er) = field_keys incl (n, e) @ flat_keys incl er"
    by (simp add: flat_keys_def p)
  from Cons.prems(2) have d: "distinct (map fst acc @ field_keys incl (n, e) @ flat_keys incl er)"
    by (simp add: fk)
  have keys: "map fst ?a2 = map fst acc @ field_keys incl (n, e)"
    using d by (auto simp: update_keys field_keys_def)
  with d have d2: "distinct (map fst ?a2 @ flat_keys incl er)"
    by simp
  from Cons.IH [OF rest d2] have
    ih1: "map fst out = map fst ?a2 @ flat_keys incl er"
    and ih2: "\<And>k. k \<in> set (map fst ?a2) \<Longrightarrow> map_of out k = map_of ?a2 k"
    and ih3: "\<forall>p \<in> set er. map_of out (fst p) = Some (entry_value (snd p)) \<and>
                  map_of out (fst p @ ''_confidence'') = Some (entry_confidence (snd p))"
    by blast+
  from d have nk: "n \<notin> set (map fst acc)" "n @ ''_confidence'' \<notin> set (map fst acc)"
    "has_reasoning incl e \<longrightarrow> n @ ''_reasoning'' \<notin> set (map fst acc)"
    by (auto simp: field_keys_def)
  have old: "map_of ?a2 k = map_of acc k" if "k \<in> set (map fst acc)" for k
  proof -
    from that nk have "k \<noteq> n" "k \<noteq> n @ ''_confidence''"
      "has_reasoning incl e \<longrightarrow> k \<noteq> n @ ''_reasoning''"
      by blast+
    then show ?thesis
      by (simp add: map_of_update_alist)
  qed
  have new: "map_of ?a2 n = Some (entry_value e)"
    "map_of ?a2 (n @ ''_confidence'') = Some (entry_confidence e)"
    by (simp_all add: map_of_update_alist)
  have mem: "n \<in> set (map fst ?a2)" "n @ ''_confidence'' \<in> set (map fst ?a2)"
    unfolding keys by (simp_all add: field_keys_def)
  have c1: "map fst out = map fst acc @ flat_keys incl (p # er)"
    by (simp add: ih1 keys fk)
  have c2: "map_of out k = map_of acc k" if "k \<in> set (map fst acc)" for k
  proof -
    from that have "k \<in> set (map fst ?a2)"
      unfolding keys by simp
    from ih2 [OF this] old [OF that] show ?thesis
      by simp
  qed
  have c3: "map_of out (fst p) = Some (entry_value (snd p))"
    "map_of out (fst p @ ''_confidence'') = Some (entry_confidence (snd p))"
    using ih2 [OF mem(1)] ih2 [OF mem(2)] new by (simp_all add: p)
  from c1 c2 c3 ih3 show ?case
    by simp
qed


lemma format_fields_reads:
  "format_fields incl er acc = Inr out \<Longrightarrow>
   \<forall>p \<in> set er. py_subscript (snd p) ''value'' = Inr (entry_value (snd p)) \<and>
                 py_subscript (snd p) ''confidence'' = Inr (entry_confidence (snd p))"
proof (induction er arbitrary: acc)
  case Nil
  then show ?case by simp
next
  case (Cons p er)
  obtain n e where p: "p = (n, e)" by (cases p)
  from format_fields_Cons [OF Cons.prems [unfolded p]] obtain acc' where
    "format_fields incl er acc' = Inr out"
    by blast
  from Cons.IH [OF this] Cons.prems show ?case
    by (auto simp: p entry_value_def entry_confidence_def split: sum.splits)
qed

subsection \<open>A second pass over an output\<close>

lemma validate_against_template_empty:
  assumes "map_of template ''fields'' = Some (PDict fs)"
    and "map_of fs field_name = Some (PDict field_def)"
    and "v = PNone \<or> v = PStr []"
  shows "validate_against_template rt field_name v template =
     Inr (if truthy (case map_of field_def ''required'' of Some r \<Rightarrow> r | None \<Rightarrow> PBool False)
          then \<lparr>is_valid = False, confidence = ''Low'',
                reasoning = [''Required field is missing or empty''], suggested_correction = PNone\<rparr>
          else \<lparr>is_valid = True, confidence = ''High'',
                reasoning = [''Optional field is empty''], suggested_correction = PNone\<rparr>)"
  using assms
  by (auto simp: validate_against_template_def template_fields_Some map_of_key
      initial_result_def Let_def)

lemma sweep_required_total:
  "sweep_required fs acc = Inr out \<Longrightarrow> \<exists>out'. sweep_required fs acc' = Inr out'"
proof (induction fs arbitrary: acc acc')
  case Nil
  then show ?case by simp
next
  case (Cons p fs)
  obtain n fd where p: "p = (n, fd)" by (cases p)
  from Cons.prems p show ?case
    by (auto split: sum.splits intro: Cons.IH)
qed

lemma sweep_required_keys:
  "sweep_required fs acc = Inr out \<Longrightarrow>
   set (map fst out) = set (map fst acc) \<union>
     {n. \<exists>fd rq. (n, fd) \<in> set fs \<and> py_get fd ''required'' (PBool False) = Inr rq \<and> truthy rq}"
proof (induction fs arbitrary: acc)
  case Nil
  then show ?case by simp
next
  case (Cons p fs)
  obtain m fd' where p: "p = (m, fd')" by (cases p)
  from Cons.prems(1) p obtain rq' where
    rq': "py_get fd' ''required'' (PBool False) = Inr rq'"
    and rest: "sweep_required fs (if truthy rq' \<and> m \<notin> set (map fst acc)
               then AList.update m missing_entry acc else acc) = Inr out"
    by (auto split: sum.splits)
  from Cons.IH [OF rest] rq' p show ?case
    by (auto simp: keys_update_image split: if_splits)
qed

lemma process_fields_total:
  "\<forall>p \<in> set d. \<not> starts_with (fst p) ''_'' \<longrightarrow>
      (\<exists>r. validate_against_template rt (fst p) (snd p) t = Inr r) \<Longrightarrow>
   \<exists>acc'. process_fields rt t d acc = Inr acc'"
proof (induction d arbitrary: acc)
  case Nil
  then show ?case by simp
next
  case (Cons p d)
  obtain n v where p: "p = (n, v)" by (cases p)
  from Cons.prems p show ?case
    by (auto split: sum.splits intro: Cons.IH)
qed

lemma process_fields_lookup:
  assumes "process_fields rt t d [] = Inr acc" and "distinct (map fst d)"
    and "(n, v) \<in> set d" and "\<not> starts_with n ''_''"
    and "validate_against_template rt n v t = Inr r"
  shows "map_of acc n = Some (enhanced_entry v r)"
proof -
  from process_fields_keys [OF assms(1)] assms(3,4) have "n \<in> set (map fst acc)"
    by force
  then obtain e where e: "map_of acc n = Some e"
    by (metis map_of_eq_None_iff not_Some_eq set_map)
  from process_fields_entry [OF assms(1) e] obtain v' r' where
    "(n, v') \<in> set d" "validate_against_template rt n v' t = Inr r'" "e = enhanced_entry v' r'"
    by auto
  moreover from this(1) assms(2,3) have "v' = v"
    by (meson eq_key_imp_eq_value)
  ultimately show ?thesis
    using e assms(5) by simp
qed

lemma entry_value_simps:
  "entry_value (enhanced_entry v r) = v" "entry_value missing_entry = PNone"
  by (simp_all add: entry_value_def enhanced_entry_def missing_entry_def)

lemma verdict_of_simps:
  "verdict_of (enhanced_entry v r) = (Some (PBool (is_valid r)), Some (PStr (confidence r)))"
  "verdict_of missing_entry = (Some (PBool False), Some (PStr ''Low''))"
  by (simp_all add: verdict_of_def enhanced_entry_def missing_entry_def)


lemma enhance_split:
  assumes "enhance_confidence_with_template rt d t = Inr out"
  shows "\<exists>acc fs. process_fields rt t d [] = Inr acc \<and> sweep_required fs acc = Inr out \<and>
           (map_of t ''fields'' = Some (PDict fs) \<or> (map_of t ''fields'' = None \<and> fs = []))"
proof (cases "map_of t ''fields''")
  case None
  with assms show ?thesis
    by (auto simp: enhance_confidence_with_template_def split: sum.splits)
next
  case (Some f)
  with assms show ?thesis
    by (cases f) (auto simp: enhance_confidence_with_template_def split: sum.splits)
qed

lemma enhance_join:
  assumes "process_fields rt t d [] = Inr acc" and "sweep_required fs acc = Inr out"
    and "map_of t ''fields'' = Some (PDict fs) \<or> (map_of t ''fields'' = None \<and> fs = [])"
  shows "enhance_confidence_with_template rt d t = Inr out"
  using assms by (auto simp: enhance_confidence_with_template_def)

subsection \<open>Where no exception is raised\<close>

lemma py_float_raises:
  "py_float rt v = Inl (Raise c m) \<Longrightarrow> fits_double v \<Longrightarrow> c = ValueError \<or> c = TypeError"
  by (cases v) (auto simp: fits_double_def float_type_error_def split: option.splits sum.splits)

lemma validate_field_type_try_raises:
  "validate_field_type_try rt v (PStr t) = Inl (Raise c m) \<Longrightarrow> fits_double v \<Longrightarrow>
   c = ValueError \<or> c = TypeError"
  by (auto simp: validate_field_type_try_def try_date_formats_find
      split: if_splits sum.splits pyval.splits dest: py_float_raises)

lemma validate_field_type_total:
  assumes "fits_double v"
  shows "\<exists>b reason. validate_field_type rt v (PStr t) = Inr (b, reason)"
proof (cases "validate_field_type_try rt v (PStr t)")
  case (Inl e)
  obtain c m where e: "e = Raise c m" by (cases e)
  from validate_field_type_try_raises [OF Inl [unfolded e] assms] Inl e show ?thesis
    by (auto simp: validate_field_type_def)
next
  case (Inr r)
  then show ?thesis
    by (cases r) (auto simp: validate_field_type_def)
qed

lemma validate_field_type_unknown:
  "v \<noteq> PNone \<Longrightarrow> str_lower t \<notin> set [''string'', ''number'', ''date'', ''boolean'', ''enum''] \<Longrightarrow>
   validate_field_type rt v (PStr t) = Inr (False, ''Unknown field type: '' @ t)"
  by (simp add: validate_field_type_def validate_field_type_try_def)

lemma validate_field_type_coercion:
  "v \<noteq> PNone \<Longrightarrow> str_lower t = ''number'' \<Longrightarrow> py_float rt v = Inl (Raise c m) \<Longrightarrow>
   c = ValueError \<or> c = TypeError \<Longrightarrow>
   validate_field_type rt v (PStr t) = Inr (False, ''Validation failed: '' @ m)"
  by (auto simp: validate_field_type_def validate_field_type_try_def)

lemma valid_number_float:
  "validate_field_type rt v (PStr t) = Inr (True, reason) \<Longrightarrow> str_lower t = ''number'' \<Longrightarrow>
   \<exists>x. py_float rt v = Inr x"
  by (cases "py_float rt v"; cases "projl (py_float rt v)")
     (auto simp: validate_field_type_def validate_field_type_try_def split: if_splits)

lemma valid_string_str:
  "validate_field_type rt v (PStr t) = Inr (True, reason) \<Longrightarrow> str_lower t = ''string'' \<Longrightarrow>
   \<exists>s. v = PStr s"
  by (cases v) (auto simp: validate_field_type_def validate_field_type_try_def split: if_splits)

lemma check_max_total:
  "numeric_or_absent (map_of d ''max'') \<Longrightarrow> \<exists>r. check_max rt d x res = Inr r"
  by (auto simp: check_max_def numeric_or_absent_def num_gt_def split: option.splits)

lemma check_number_total:
  "py_float rt v = Inr x \<Longrightarrow> numeric_or_absent (map_of d ''min'') \<Longrightarrow>
   numeric_or_absent (map_of d ''max'') \<Longrightarrow> \<exists>r. check_number rt d v res = Inr r"
  using check_max_total [where d = d and rt = rt and x = x and res = res]
  by (auto simp: check_number_def numeric_or_absent_def num_lt_def split: option.splits)

lemma check_pattern_total:
  "(case map_of d ''pattern'' of None \<Rightarrow> True
    | Some p \<Rightarrow> (case re_match rt p s of Inr _ \<Rightarrow> True | Inl _ \<Rightarrow> False)) \<Longrightarrow>
   \<exists>r. check_pattern rt d s res = Inr r"
  by (auto simp: check_pattern_def split: option.splits sum.splits)

lemma check_max_length_total:
  "numeric_or_absent (map_of d ''max_length'') \<Longrightarrow>
   (case map_of d ''pattern'' of None \<Rightarrow> True
    | Some p \<Rightarrow> (case re_match rt p s of Inr _ \<Rightarrow> True | Inl _ \<Rightarrow> False)) \<Longrightarrow>
   \<exists>r. check_max_length rt d s res = Inr r"
  using check_pattern_total [where d = d and rt = rt and s = s and res = res]
  by (auto simp: check_max_length_def numeric_or_absent_def num_gt_def split: option.splits)

lemma check_string_total:
  "numeric_or_absent (map_of d ''min_length'') \<Longrightarrow> numeric_or_absent (map_of d ''max_length'') \<Longrightarrow>
   (case map_of d ''pattern'' of None \<Rightarrow> True
    | Some p \<Rightarrow> (case re_match rt p (py_str rt v) of Inr _ \<Rightarrow> True | Inl _ \<Rightarrow> False)) \<Longrightarrow>
   \<exists>r. check_string rt d v res = Inr r"
  using check_max_length_total [where d = d and rt = rt and s = "py_str rt v" and res = res]
  by (auto simp: check_string_def Let_def numeric_or_absent_def num_lt_def split: option.splits)

lemma check_enum_total:
  "(case map_of d ''options'' of None \<Rightarrow> True | Some (PList _) \<Rightarrow> True | Some _ \<Rightarrow> False) \<Longrightarrow>
   \<exists>r. check_enum rt d v res = Inr r"
proof (cases "map_of d ''options''")
  case None
  then show ?thesis by (simp add: check_enum_def)
next
  case (Some x)
  assume "case map_of d ''options'' of None \<Rightarrow> True | Some (PList _) \<Rightarrow> True | Some _ \<Rightarrow> False"
  with Some obtain xs where "x = PList xs" by (cases x) auto
  with Some show ?thesis
    by (cases xs) (auto simp: check_enum_def Let_def)
qed

lemma additional_checks_total:
  assumes "well_formed_decl rt v (PDict d)"
    and "(case map_of d ''type'' of Some t \<Rightarrow> t | None \<Rightarrow> PStr ''string'') = PStr t"
    and "validate_field_type rt v (PStr t) = Inr (True, reason)"
  shows "\<exists>r. additional_checks rt d (PStr t) v res = Inr r"
proof -
  consider (enum) "str_lower t = ''enum''" | (number) "str_lower t = ''number''"
    | (string) "str_lower t = ''string''"
    | (other) "str_lower t \<noteq> ''enum''" "str_lower t \<noteq> ''number''" "str_lower t \<noteq> ''string''"
    by blast
  then show ?thesis
  proof cases
    case enum
    with assms(1,2) check_enum_total [where d = d and rt = rt and v = v and res = res] show ?thesis
      by (simp add: well_formed_decl_def additional_checks_def)
  next
    case number
    from valid_number_float [OF assms(3) number] obtain x where "py_float rt v = Inr x" by blast
    with number assms(1,2) check_number_total [where d = d and rt = rt and v = v and x = x and res = res] show ?thesis
      by (simp add: well_formed_decl_def additional_checks_def)
  next
    case string
    with assms(1,2) check_string_total [where d = d and rt = rt and v = v and res = res] show ?thesis
      by (simp add: well_formed_decl_def additional_checks_def)
  next
    case other
    then show ?thesis by (simp add: additional_checks_def)
  qed
qed

lemma well_formed_decl_fits:
  "well_formed_decl rt v (PDict d) \<Longrightarrow>
   (case map_of d ''type'' of Some t \<Rightarrow> t | None \<Rightarrow> PStr ''string'') = PStr t \<Longrightarrow>
   str_lower t = ''number'' \<longrightarrow> fits_double v"
  by (auto simp: well_formed_decl_def)

lemma validate_field_type_total':
  assumes "str_lower t = ''number'' \<longrightarrow> fits_double v"
  shows "\<exists>b reason. validate_field_type rt v (PStr t) = Inr (b, reason)"
proof (cases "str_lower t = ''number''")
  case True
  with assms validate_field_type_total show ?thesis by blast
next
  case False
  have "validate_field_type_try rt v (PStr t) = Inl e \<Longrightarrow> False" for e
    using False
    by (auto simp: validate_field_type_try_def try_date_formats_find
        split: if_splits sum.splits pyval.splits)
  then show ?thesis
    by (cases "validate_field_type_try rt v (PStr t)") (auto simp: validate_field_type_def)
qed

lemma validate_against_template_total:
  assumes "template_fields t = PDict fs"
    and "case map_of fs n of None \<Rightarrow> True | Some fd \<Rightarrow> well_formed_decl rt v fd"
  shows "\<exists>r. validate_against_template rt n v t = Inr r"
proof (cases "map_of fs n")
  case None
  then have "n \<notin> set (map fst fs)"
    by (simp add: map_of_eq_None_iff)
  with assms(1) show ?thesis
    by (simp add: validate_against_template_def)
next
  case (Some fd)
  with assms(2) have wf: "well_formed_decl rt v fd" by simp
  then obtain d where fd: "fd = PDict d"
    by (cases fd) (auto simp: well_formed_decl_def)
  let ?ft = "case map_of d ''type'' of Some t \<Rightarrow> t | None \<Rightarrow> PStr ''string''"
  from wf fd obtain ty where ty: "?ft = PStr ty"
    by (cases ?ft) (auto simp: well_formed_decl_def)
  from map_of_key [OF Some] have mem: "n \<in> set (map fst fs)" by simp
  from validate_field_type_total' [OF well_formed_decl_fits [OF wf [unfolded fd] ty], where rt = rt]
  obtain b reason where vt: "validate_field_type rt v (PStr ty) = Inr (b, reason)"
    by blast
  show ?thesis
  proof (cases b)
    case False
    with vt assms(1) Some mem fd ty show ?thesis
      by (simp add: validate_against_template_def Let_def)
  next
    case True
    from True vt have vt': "validate_field_type rt v (PStr ty) = Inr (True, reason)"
      by simp
    from additional_checks_total [OF wf [unfolded fd] ty vt']
    obtain r where "additional_checks rt d (PStr ty) v
        (initial_result\<lparr>reasoning := [''Type validation: '' @ reason]\<rparr>) = Inr r"
      by blast
    with True vt assms(1) Some mem fd ty show ?thesis
      by (cases r) (simp_all add: validate_against_template_def Let_def)
  qed
qed


lemma sweep_required_total_dicts:
  "\<forall>p \<in> set fs. \<exists>d. snd p = PDict d \<Longrightarrow> \<exists>out. sweep_required fs acc = Inr out"
proof (induction fs arbitrary: acc)
  case Nil
  then show ?case by simp
next
  case (Cons p fs)
  obtain n fd where p: "p = (n, fd)" by (cases p)
  from Cons.prems p obtain d where "fd = PDict d" by auto
  with Cons p show ?case by auto
qed

lemma template_fields_cases:
  "template_fields t = PDict fs \<Longrightarrow>
   map_of t ''fields'' = Some (PDict fs) \<or> (map_of t ''fields'' = None \<and> fs = [])"
  by (auto simp: template_fields_def split: option.splits)

lemma enhance_total:
  assumes "template_fields t = PDict fs"
    and "\<forall>p \<in> set fs. \<exists>d. snd p = PDict d"
    and "\<forall>p \<in> set d. \<not> starts_with (fst p) ''_'' \<longrightarrow>
           (case map_of fs (fst p) of None \<Rightarrow> True | Some fd \<Rightarrow> well_formed_decl rt (snd p) fd)"
  shows "\<exists>out. enhance_confidence_with_template rt d t = Inr out"
proof -
  from assms(3) validate_against_template_total [OF assms(1)]
  have "\<forall>p \<in> set d. \<not> starts_with (fst p) ''_'' \<longrightarrow>
      (\<exists>r. validate_against_template rt (fst p) (snd p) t = Inr r)"
    by blast
  from process_fields_total [OF this] obtain acc where
    acc: "process_fields rt t d [] = Inr acc"
    by blast
  from sweep_required_total_dicts [OF assms(2)] obtain out where
    "sweep_required fs acc = Inr out"
    by blast
  from enhance_join [OF acc this template_fields_cases [OF assms(1)]] show ?thesis
    by blast
qed

lemma first_non_str_strings: "first_non_str i (map PStr rs) = None"
  by (induction rs arbitrary: i) simp_all

lemma py_join_strings: "\<exists>s. py_join sep (PList (map PStr rs)) = Inr s"
  by (simp add: py_join_def first_non_str_strings)

lemma format_fields_total:
  "\<forall>p \<in> set er. (\<exists>v r. snd p = enhanced_entry v r) \<or> snd p = missing_entry \<Longrightarrow>
   \<exists>out. format_fields incl er acc = Inr out"
proof (induction er arbitrary: acc)
  case Nil
  then show ?case by simp
next
  case (Cons p er)
  obtain n e where p: "p = (n, e)" by (cases p)
  from Cons.prems p consider (a) v r where "e = enhanced_entry v r" | (b) "e = missing_entry"
    by auto
  then show ?case
  proof cases
    case a
    from py_join_strings obtain s where "py_join '' '' (PList (map PStr (reasoning r))) = Inr s"
      by blast
    with a Cons p show ?thesis
      by (auto simp: enhanced_entry_def Let_def)
  next
    case b
    from py_join_strings [where sep = "'' ''" and rs = "[''Required field is missing'']"]
    obtain s where "py_join '' '' (PList [PStr ''Required field is missing'']) = Inr s"
      by auto
    with b Cons p show ?thesis
      by (auto simp: missing_entry_def Let_def)
  qed
qed

lemma countable_entries:
  "countable_entry (enhanced_entry v r)" "countable_entry missing_entry"
  by (simp_all add: countable_entry_def confidence_of_def enhanced_entry_def missing_entry_def)

lemma calculate_overall_confidence_total:
  assumes "list_all countable_entry (map snd er)"
  shows "\<exists>c. calculate_overall_confidence er = Inr c"
proof -
  from count_confidences_total [OF assms] obtain c where
    "count_confidences [(''High'', 0), (''Medium'', 0), (''Low'', 0)] (map snd er) = Inr c"
    by blast
  then show ?thesis
    by (simp add: calculate_overall_confidence_def Let_def)
qed

lemma enhance_output_entries:
  assumes "enhance_confidence_with_template rt d t = Inr out"
  shows "\<forall>p \<in> set out. (\<exists>v r. snd p = enhanced_entry v r) \<or> snd p = missing_entry"
proof
  fix p
  assume "p \<in> set out"
  with enhance_distinct [OF assms] have "map_of out (fst p) = Some (snd p)"
    by simp
  from enhance_entry [OF assms this] show "(\<exists>v r. snd p = enhanced_entry v r) \<or> snd p = missing_entry"
    by blast
qed

lemma enhance_output_usable:
  assumes "enhance_confidence_with_template rt d t = Inr out"
  shows "(\<exists>c. calculate_overall_confidence out = Inr c) \<and>
         (\<exists>flat. format_confidence_results out incl = Inr flat)"
proof -
  note ents = enhance_output_entries [OF assms]
  then have "list_all countable_entry (map snd out)"
    by (auto simp: list_all_iff countable_entries)
  from calculate_overall_confidence_total [OF this] obtain c where
    c: "calculate_overall_confidence out = Inr c"
    by blast
  from format_fields_total [OF ents] obtain f where "format_fields incl out [] = Inr f"
    by blast
  with c show ?thesis
    by (simp add: format_confidence_results_def)
qed

section \<open>Empty values (C5)\<close>

text \<open>
  Claim C5. For a field that the template declares, a value that is \<^verbatim>\<open>None\<close> or the empty
  string is settled before any type or constraint check: the result is invalid, \<open>Low\<close>,
  ``Required field is missing or empty'' when the declaration's \<^verbatim>\<open>required\<close> entry is true,
  and valid, \<open>High\<close>, ``Optional field is empty'' when it is not. The result has this one
  reasoning entry and no suggested correction, whatever the rest of the declaration (its
  type, its constraints) holds.
\<close>

theorem empty_value_short_circuits:
  assumes "map_of template ''fields'' = Some (PDict fs)"
    and "map_of fs field_name = Some (PDict field_def)"
    and "v = PNone \<or> v = PStr []"
  shows "validate_against_template rt field_name v template =
     Inr (if truthy (case map_of field_def ''required'' of Some r \<Rightarrow> r | None \<Rightarrow> PBool False)
          then \<lparr>is_valid = False, confidence = ''Low'',
                reasoning = [''Required field is missing or empty''], suggested_correction = PNone\<rparr>
          else \<lparr>is_valid = True, confidence = ''High'',
                reasoning = [''Optional field is empty''], suggested_correction = PNone\<rparr>)"
  using assms
  by (auto simp: validate_against_template_def template_fields_Some map_of_key
      initial_result_def Let_def)

theorem empty_value_short_circuits_witness:
  "validate_against_template sample_rt ''id'' PNone
     [(''fields'', PDict [(''id'', PDict [(''type'', PStr ''string''), (''required'', PBool True)]),
                          (''note'', PDict [(''type'', PInt 7), (''min'', PStr ''x'')])])] =
   Inr \<lparr>is_valid = False, confidence = ''Low'',
        reasoning = [''Required field is missing or empty''], suggested_correction = PNone\<rparr> \<and>
   validate_against_template sample_rt ''note'' (PStr [])
     [(''fields'', PDict [(''id'', PDict [(''type'', PStr ''string''), (''required'', PBool True)]),
                          (''note'', PDict [(''type'', PInt 7), (''min'', PStr ''x'')])])] =
   Inr \<lparr>is_valid = True, confidence = ''High'',
        reasoning = [''Optional field is empty''], suggested_correction = PNone\<rparr>"
proof -
  let ?fs = "[(''id'', PDict [(''type'', PStr ''string''), (''required'', PBool True)]),
              (''note'', PDict [(''type'', PInt 7), (''min'', PStr ''x'')])]"
  have t: "map_of [(''fields'', PDict ?fs)] ''fields'' = Some (PDict ?fs)"
    by simp
  have a: "map_of ?fs ''id'' = Some (PDict [(''type'', PStr ''string''), (''required'', PBool True)])"
    by simp
  have b: "map_of ?fs ''note'' = Some (PDict [(''type'', PInt 7), (''min'', PStr ''x'')])"
    by simp
  have n: "PNone = PNone \<or> PNone = PStr []" and e: "PStr [] = PNone \<or> PStr [] = PStr []"
    by simp_all
  from empty_value_short_circuits [OF t a n, of sample_rt]
       empty_value_short_circuits [OF t b e, of sample_rt]
  show ?thesis by simp
qed

section \<open>Enumerations (C4)\<close>

text \<open>
  Claim C4. For a field declared with type \<^verbatim>\<open>enum\<close> (in any capitalisation) and a value that
  is neither \<^verbatim>\<open>None\<close> nor empty, the string form of the value is compared with the string
  forms of the declared options. If it is among them the result is valid and \<open>High\<close>. If it
  equals none of them the result is invalid, \<open>Low\<close>, and the suggested correction is the
  first declared option, or none when the list of options is empty or absent.
\<close>

theorem enum_membership:
  assumes "map_of template ''fields'' = Some (PDict fs)"
    and "map_of fs field_name = Some (PDict field_def)"
    and "map_of field_def ''type'' = Some ft" and "py_lower ft = Inr ''enum''"
    and "v \<noteq> PNone" and "v \<noteq> PStr []"
    and "(case map_of field_def ''options'' of Some x \<Rightarrow> x | None \<Rightarrow> PList []) = PList opts"
  shows "validate_against_template rt field_name v template =
     Inr (if py_str rt v \<in> set (map (py_str rt) opts)
          then \<lparr>is_valid = True, confidence = ''High'',
                reasoning = [''Type validation: Enum type needs template validation''],
                suggested_correction = PNone\<rparr>
          else \<lparr>is_valid = False, confidence = ''Low'',
                reasoning = [''Type validation: Enum type needs template validation'',
                             ''Value '' @ [CHR 0x27] @ py_str rt v @ [CHR 0x27] @
                             '' not in allowed values: '' @ str_join '', '' (map (py_str rt) opts)],
                suggested_correction = (case opts of [] \<Rightarrow> PNone | x # _ \<Rightarrow> x)\<rparr>)"
proof -
  have c: "check_enum rt field_def v r =
      (if py_str rt v \<in> set (map (py_str rt) opts) then Inr None
       else Inr (Some (r\<lparr>reasoning := reasoning r @
               [''Value '' @ [CHR 0x27] @ py_str rt v @ [CHR 0x27] @
                '' not in allowed values: '' @ str_join '', '' (map (py_str rt) opts)],
             suggested_correction := (case opts of [] \<Rightarrow> PNone | x # _ \<Rightarrow> x),
             confidence := ''Low''\<rparr>)))" for r
    using assms(7) by (cases opts) (auto simp: check_enum_def Let_def)
  show ?thesis
    using assms(1-6)
    by (simp add: validate_against_template_def template_fields_Some map_of_key
        validate_field_type_enum additional_checks_def c initial_result_def Let_def)
qed

theorem enum_membership_witness:
  "validate_against_template sample_rt ''status'' (PStr ''pending'')
     [(''fields'', PDict [(''status'', PDict [(''type'', PStr ''enum''),
                                              (''options'', PList [PStr ''open'', PStr ''closed''])])])] =
   Inr \<lparr>is_valid = False, confidence = ''Low'',
        reasoning = [''Type validation: Enum type needs template validation'',
                     ''Value '' @ [CHR 0x27] @ ''pending'' @ [CHR 0x27] @
                     '' not in allowed values: open, closed''],
        suggested_correction = PStr ''open''\<rparr>"
proof -
  let ?fd = "[(''type'', PStr ''enum''), (''options'', PList [PStr ''open'', PStr ''closed''])]"
  have t: "map_of [(''fields'', PDict [(''status'', PDict ?fd)])] ''fields'' =
           Some (PDict [(''status'', PDict ?fd)])"
    by simp
  have f: "map_of [(''status'', PDict ?fd)] ''status'' = Some (PDict ?fd)"
    by simp
  have ty: "map_of ?fd ''type'' = Some (PStr ''enum'')"
    by simp
  have lo: "py_lower (PStr ''enum'') = Inr ''enum''"
    by (simp add: str_lower_def lower_char_def)
  have v1: "PStr ''pending'' \<noteq> PNone" and v2: "PStr ''pending'' \<noteq> PStr []"
    by simp_all
  have op: "(case map_of ?fd ''options'' of Some x \<Rightarrow> x | None \<Rightarrow> PList []) =
            PList [PStr ''open'', PStr ''closed'']"
    by simp
  from enum_membership [OF t f ty lo v1 v2 op, of sample_rt]
  show ?thesis by simp
qed

section \<open>The overall confidence (C1)\<close>

text \<open>
  Claim C1. \<^verbatim>\<open>calculate_overall_confidence\<close> returns \<open>Low\<close> for an empty mapping. Otherwise,
  with the fraction of entries whose confidence is \<open>High\<close> and the fraction of those whose
  confidence is \<open>Medium\<close>, both taken over all entries of the mapping, it returns \<open>High\<close>
  when the first is at least 7/10, else \<open>Medium\<close> when their sum is at least 6/10, else
  \<open>Low\<close>. This holds for every mapping whose entries are dictionaries with a hashable
  confidence (on any other mapping the function raises). An entry without a confidence, or
  with one that is not a tier, counts in the total only.
\<close>

theorem overall_confidence_policy:
  assumes "list_all countable_entry (map snd er)"
  shows "calculate_overall_confidence er =
     Inr (if er = [] then ''Low''
          else if 7 / 10 \<le> (of_nat (tier_count ''High'' er) :: rat) / of_nat (length er)
            then ''High''
          else if 6 / 10 \<le> (of_nat (tier_count ''High'' er) :: rat) / of_nat (length er) +
                            of_nat (tier_count ''Medium'' er) / of_nat (length er)
            then ''Medium''
          else ''Low'')"
proof (cases "er = []")
  case True
  then show ?thesis by (simp add: calculate_overall_confidence_def)
next
  case False
  let ?init = "[(''High'', 0::nat), (''Medium'', 0), (''Low'', 0)]"
  from count_confidences_total [OF assms, of ?init] obtain c where
    c: "count_confidences ?init (map snd er) = Inr c"
      "\<forall>k. k \<in> set (map fst ?init) \<longrightarrow>
          count_of c k = count_of ?init k +
            length (filter (\<lambda>e. confidence_of e = PStr k) (map snd er))"
    by blast
  have len: "length (filter (\<lambda>e. confidence_of e = PStr k) (map snd er)) = tier_count k er" for k
    by (simp add: tier_count_def filter_map comp_def)
  have z: "count_of ?init k = 0" for k
    by (simp add: count_of_def)
  from c(2) have h: "count_of c ''High'' = tier_count ''High'' er"
    and m: "count_of c ''Medium'' = tier_count ''Medium'' er"
    unfolding len z by simp_all
  show ?thesis
    using False c(1) by (simp add: calculate_overall_confidence_def h m Let_def)
qed

text \<open>The three records of the specification, and the empty one.\<close>

theorem overall_confidence_policy_witness:
  "calculate_overall_confidence
     [(''a'', PDict [(''confidence'', PStr ''High'')]), (''b'', PDict [(''confidence'', PStr ''High'')]),
      (''c'', PDict [(''confidence'', PStr ''High'')]), (''d'', PDict [(''confidence'', PStr ''High'')]),
      (''e'', PDict [(''confidence'', PStr ''Low'')])] = Inr ''High'' \<and>
   calculate_overall_confidence
     [(''a'', PDict [(''confidence'', PStr ''High'')]), (''b'', PDict [(''confidence'', PStr ''Medium'')]),
      (''c'', PDict [(''confidence'', PStr ''Medium'')]), (''d'', PDict [(''confidence'', PStr ''Low'')]),
      (''e'', PDict [(''confidence'', PStr ''Low'')])] = Inr ''Medium'' \<and>
   calculate_overall_confidence
     [(''a'', PDict [(''confidence'', PStr ''Low'')]), (''b'', PDict [(''confidence'', PStr ''Low'')]),
      (''c'', PDict [(''confidence'', PStr ''Low'')])] = Inr ''Low'' \<and>
   calculate_overall_confidence [] = Inr ''Low''"
proof -
  let ?e1 = "[(''a'', PDict [(''confidence'', PStr ''High'')]), (''b'', PDict [(''confidence'', PStr ''High'')]),
      (''c'', PDict [(''confidence'', PStr ''High'')]), (''d'', PDict [(''confidence'', PStr ''High'')]),
      (''e'', PDict [(''confidence'', PStr ''Low'')])]"
  let ?e2 = "[(''a'', PDict [(''confidence'', PStr ''High'')]), (''b'', PDict [(''confidence'', PStr ''Medium'')]),
      (''c'', PDict [(''confidence'', PStr ''Medium'')]), (''d'', PDict [(''confidence'', PStr ''Low'')]),
      (''e'', PDict [(''confidence'', PStr ''Low'')])]"
  let ?e3 = "[(''a'', PDict [(''confidence'', PStr ''Low'')]), (''b'', PDict [(''confidence'', PStr ''Low'')]),
      (''c'', PDict [(''confidence'', PStr ''Low'')])]"
  have ok: "list_all countable_entry (map snd ?e1)" "list_all countable_entry (map snd ?e2)"
    "list_all countable_entry (map snd ?e3)"
    "list_all countable_entry (map snd ([] :: (string \<times> pyval) list))"
    by (simp_all add: countable_entry_def confidence_of_def)
  from overall_confidence_policy [OF ok(1)] overall_confidence_policy [OF ok(2)]
       overall_confidence_policy [OF ok(3)] overall_confidence_policy [OF ok(4)]
  show ?thesis
    by (simp add: tier_count_def confidence_of_def)
qed

section \<open>Dates (C2)\<close>

text \<open>
  Claim C2. For a string and the field type \<^verbatim>\<open>date\<close> (in any capitalisation),
  \<^verbatim>\<open>validate_field_type\<close> tries the formats \<^verbatim>\<open>%Y-%m-%d\<close>, \<^verbatim>\<open>%m/%d/%Y\<close>, \<^verbatim>\<open>%d/%m/%Y\<close>,
  \<^verbatim>\<open>%Y-%m-%dT%H:%M:%S\<close>, \<^verbatim>\<open>%Y-%m-%d %H:%M:%S\<close> in this order; the first format that
  parses the string decides, and names itself in the reason; a string that no format parses
  is invalid with the reason ``Date format not recognized''. A value that is not a string is
  invalid. In particular \<^verbatim>\<open>01/02/2023\<close> is valid by the second format, which reads it as the
  2nd of January, \<^verbatim>\<open>2023-01-01\<close> is valid, and \<^verbatim>\<open>13/45/2023\<close> is parsed by none of the five
  formats.
\<close>

theorem date_first_format_wins:
  assumes "py_lower field_type = Inr ''date''"
  shows "date_formats =
           [''%Y-%m-%d'', ''%m/%d/%Y'', ''%d/%m/%Y'', ''%Y-%m-%dT%H:%M:%S'', ''%Y-%m-%d %H:%M:%S''] \<and>
         validate_field_type rt (PStr s) field_type =
           Inr (case List.find (parses s) date_formats of
                  Some fmt \<Rightarrow> (True, ''Valid date (format: '' @ fmt @ '')'')
                | None \<Rightarrow> (False, ''Date format not recognized'')) \<and>
         ((\<forall>x. v \<noteq> PStr x) \<longrightarrow>
           validate_field_type rt v field_type =
             Inr (False, if v = PNone then ''Value is required''
                         else ''Expected date string, got '' @ type_name v)) \<and>
         validate_field_type rt (PStr ''01/02/2023'') field_type =
           Inr (True, ''Valid date (format: %m/%d/%Y)'') \<and>
         strptime ''01/02/2023'' ''%m/%d/%Y'' =
           Inr \<lparr>year = 2023, month = 1, day = 2, hour = 0, minute = 0, second = 0\<rparr> \<and>
         validate_field_type rt (PStr ''2023-01-01'') field_type =
           Inr (True, ''Valid date (format: %Y-%m-%d)'') \<and>
         list_all (\<lambda>fmt. \<not> parses ''13/45/2023'' fmt) date_formats \<and>
         validate_field_type rt (PStr ''13/45/2023'') field_type =
           Inr (False, ''Date format not recognized'')"
proof -
  have str: "validate_field_type rt (PStr x) field_type = try_date_formats x date_formats" for x
    using assms
    by (cases "try_date_formats x date_formats")
       (simp_all add: validate_field_type_def validate_field_type_try_def try_date_formats_find)
  have other: "validate_field_type rt v field_type =
      Inr (False, if v = PNone then ''Value is required''
                  else ''Expected date string, got '' @ type_name v)" if "\<forall>x. v \<noteq> PStr x"
    using assms that
    by (cases v) (simp_all add: validate_field_type_def validate_field_type_try_def)
  show ?thesis
    using other
    by (simp add: str strptime_jan_2nd try_date_formats_ambiguous try_date_formats_iso
        try_date_formats_no_match no_format_parses_13_45 try_date_formats_find [symmetric])
      (simp add: date_formats_def)
qed

theorem date_first_format_wins_witness:
  "validate_field_type sample_rt (PStr ''01/02/2023'') (PStr ''Date'') =
     Inr (True, ''Valid date (format: %m/%d/%Y)'') \<and>
   validate_field_type sample_rt (PStr ''2023-01-01'') (PStr ''Date'') =
     Inr (True, ''Valid date (format: %Y-%m-%d)'') \<and>
   validate_field_type sample_rt (PStr ''13/45/2023'') (PStr ''Date'') =
     Inr (False, ''Date format not recognized'') \<and>
   validate_field_type sample_rt (PInt 20230101) (PStr ''Date'') =
     Inr (False, ''Expected date string, got int'')"
proof -
  have lo: "py_lower (PStr ''Date'') = Inr ''date''"
    by code_simp
  note w = date_first_format_wins
         [OF lo, where rt = sample_rt and v = "PInt 20230101" and s = "''2023-01-01''"]
  have ns: "\<forall>x. PInt 20230101 \<noteq> PStr x"
    by simp
  from w have a: "validate_field_type sample_rt (PStr ''01/02/2023'') (PStr ''Date'') =
      Inr (True, ''Valid date (format: %m/%d/%Y)'')"
    by blast
  from w have b: "validate_field_type sample_rt (PStr ''2023-01-01'') (PStr ''Date'') =
      Inr (True, ''Valid date (format: %Y-%m-%d)'')"
    by blast
  from w have c: "validate_field_type sample_rt (PStr ''13/45/2023'') (PStr ''Date'') =
      Inr (False, ''Date format not recognized'')"
    by blast
  from w ns have "validate_field_type sample_rt (PInt 20230101) (PStr ''Date'') =
      Inr (False, if PInt 20230101 = PNone then ''Value is required''
                  else ''Expected date string, got '' @ type_name (PInt 20230101))"
    by blast
  then have d: "validate_field_type sample_rt (PInt 20230101) (PStr ''Date'') =
      Inr (False, ''Expected date string, got int'')"
    by simp
  from a b c d show ?thesis
    by blast
qed

section \<open>Missing required fields (C3)\<close>

text \<open>
  Claim C3. Whenever \<^verbatim>\<open>enhance_confidence_with_template\<close> returns, every field that the
  template declares as required and that is not among the processed extracted fields (the
  keys of the extracted data that do not start with an underscore) is in the output with
  exactly the synthesized entry: value \<^verbatim>\<open>None\<close>, confidence \<open>Low\<close>, the one reasoning
  ``Required field is missing'', \<open>is_valid\<close> false, and no suggested correction. So every
  required field of the template is represented in the output.
\<close>

theorem missing_required_field_synthesized:
  assumes "enhance_confidence_with_template rt extracted_data template = Inr out"
    and "map_of template ''fields'' = Some (PDict fs)"
    and "(name, PDict fd) \<in> set fs"
    and "truthy (case map_of fd ''required'' of Some r \<Rightarrow> r | None \<Rightarrow> PBool False)"
    and "\<not> (name \<in> fst ` set extracted_data \<and> \<not> starts_with name ''_'')"
  shows "map_of out name =
     Some (PDict [(''value'', PNone), (''confidence'', PStr ''Low''),
                  (''reasoning'', PList [PStr ''Required field is missing'']),
                  (''is_valid'', PBool False)])"
proof -
  from assms(1,2) obtain acc where
    acc: "process_fields rt template extracted_data [] = Inr acc"
    and sw: "sweep_required fs acc = Inr out"
    by (auto simp: enhance_confidence_with_template_def split: sum.splits)
  from process_fields_keys [OF acc] assms(5) have "name \<notin> set (map fst acc)"
    by auto
  from sweep_required_adds [OF sw assms(3) _ assms(4) this]
  show ?thesis by (simp add: missing_entry_def)
qed

theorem missing_required_field_synthesized_witness:
  "enhance_confidence_with_template sample_rt [(''title'', PStr ''Report'')]
     [(''fields'', PDict [(''id'', PDict [(''type'', PStr ''string''), (''required'', PBool True)]),
                          (''title'', PDict [(''type'', PStr ''string'')])])] =
   Inr [(''title'', PDict [(''value'', PStr ''Report''), (''confidence'', PStr ''High''),
                           (''reasoning'', PList [PStr ''Type validation: Valid string'']),
                           (''is_valid'', PBool True)]),
        (''id'', PDict [(''value'', PNone), (''confidence'', PStr ''Low''),
                        (''reasoning'', PList [PStr ''Required field is missing'']),
                        (''is_valid'', PBool False)])] \<and>
   map_of [(''title'', PDict [(''value'', PStr ''Report''), (''confidence'', PStr ''High''),
                              (''reasoning'', PList [PStr ''Type validation: Valid string'']),
                              (''is_valid'', PBool True)]),
           (''id'', PDict [(''value'', PNone), (''confidence'', PStr ''Low''),
                           (''reasoning'', PList [PStr ''Required field is missing'']),
                           (''is_valid'', PBool False)])] ''id'' =
   Some (PDict [(''value'', PNone), (''confidence'', PStr ''Low''),
                (''reasoning'', PList [PStr ''Required field is missing'']),
                (''is_valid'', PBool False)])"
proof -
  let ?fd = "[(''type'', PStr ''string''), (''required'', PBool True)]"
  let ?fs = "[(''id'', PDict ?fd), (''title'', PDict [(''type'', PStr ''string'')])]"
  let ?out = "[(''title'', PDict [(''value'', PStr ''Report''), (''confidence'', PStr ''High''),
                           (''reasoning'', PList [PStr ''Type validation: Valid string'']),
                           (''is_valid'', PBool True)]),
        (''id'', PDict [(''value'', PNone), (''confidence'', PStr ''Low''),
                        (''reasoning'', PList [PStr ''Required field is missing'']),
                        (''is_valid'', PBool False)])]"
  have run: "enhance_confidence_with_template sample_rt [(''title'', PStr ''Report'')]
       [(''fields'', PDict ?fs)] = Inr ?out"
    by code_simp
  have t: "map_of [(''fields'', PDict ?fs)] ''fields'' = Some (PDict ?fs)"
    by simp
  have m: "(''id'', PDict ?fd) \<in> set ?fs"
    by simp
  have rq: "truthy (case map_of ?fd ''required'' of Some r \<Rightarrow> r | None \<Rightarrow> PBool False)"
    by simp
  have np: "\<not> (''id'' \<in> fst ` set [(''title'', PStr ''Report'')] \<and> \<not> starts_with ''id'' ''_'')"
    by simp
  from missing_required_field_synthesized [OF run t m rq np] run
  show ?thesis by simp
qed

section \<open>The invariant of the verdicts (C10)\<close>

text \<open>
  Claim C10. Every result that \<^verbatim>\<open>validate_against_template\<close> returns, and every entry of
  every mapping that \<^verbatim>\<open>enhance_confidence_with_template\<close> returns, satisfies: the confidence
  is one of \<open>High\<close>, \<open>Medium\<close>, \<open>Low\<close>; a valid result has confidence \<open>High\<close>; and a
  suggested correction other than \<^verbatim>\<open>None\<close> comes only with an invalid result of confidence
  \<open>Low\<close>.
\<close>

theorem verdict_invariant:
  "(validate_against_template rt n v t = Inr r \<longrightarrow> verdict_ok r) \<and>
   (enhance_confidence_with_template rt d t = Inr out \<longrightarrow> (\<forall>e \<in> snd ` set out. entry_ok e))"
proof (intro conjI impI ballI)
  assume "validate_against_template rt n v t = Inr r"
  then show "verdict_ok r" by (rule validate_against_template_verdict)
next
  fix e
  assume run: "enhance_confidence_with_template rt d t = Inr out" and "e \<in> snd ` set out"
  then obtain k where "(k, e) \<in> set out" by auto
  with enhance_distinct [OF run] have "map_of out k = Some e" by simp
  from enhance_entry [OF run this] show "entry_ok e"
    by (auto intro: enhanced_entry_ok missing_entry_ok validate_against_template_verdict)
qed

theorem verdict_invariant_witness:
  "validate_against_template sample_rt ''amount'' (PInt 1500)
     [(''fields'', PDict [(''amount'', PDict [(''type'', PStr ''number''), (''min'', PInt 0),
                                              (''max'', PInt 1000)]),
                          (''id'', PDict [(''type'', PStr ''string''), (''required'', PBool True)])])] =
   Inr \<lparr>is_valid = False, confidence = ''Low'',
        reasoning = [''Type validation: Valid number'', ''Value 1500.0 is above maximum 1000''],
        suggested_correction = PInt 1000\<rparr> \<and>
   verdict_ok \<lparr>is_valid = False, confidence = ''Low'',
        reasoning = [''Type validation: Valid number'', ''Value 1500.0 is above maximum 1000''],
        suggested_correction = PInt 1000\<rparr> \<and>
   enhance_confidence_with_template sample_rt [(''amount'', PInt 1500)]
     [(''fields'', PDict [(''amount'', PDict [(''type'', PStr ''number''), (''min'', PInt 0),
                                              (''max'', PInt 1000)]),
                          (''id'', PDict [(''type'', PStr ''string''), (''required'', PBool True)])])] =
   Inr [(''amount'', PDict [(''value'', PInt 1500), (''confidence'', PStr ''Low''),
          (''reasoning'', PList [PStr ''Type validation: Valid number'',
                                 PStr ''Value 1500.0 is above maximum 1000'']),
          (''is_valid'', PBool False), (''suggested_correction'', PInt 1000)]),
        (''id'', PDict [(''value'', PNone), (''confidence'', PStr ''Low''),
          (''reasoning'', PList [PStr ''Required field is missing'']), (''is_valid'', PBool False)])] \<and>
   list_all entry_ok
     [PDict [(''value'', PInt 1500), (''confidence'', PStr ''Low''),
          (''reasoning'', PList [PStr ''Type validation: Valid number'',
                                 PStr ''Value 1500.0 is above maximum 1000'']),
          (''is_valid'', PBool False), (''suggested_correction'', PInt 1000)],
      PDict [(''value'', PNone), (''confidence'', PStr ''Low''),
          (''reasoning'', PList [PStr ''Required field is missing'']), (''is_valid'', PBool False)]]"
proof -
  let ?t = "[(''fields'', PDict [(''amount'', PDict [(''type'', PStr ''number''), (''min'', PInt 0),
                                              (''max'', PInt 1000)]),
                          (''id'', PDict [(''type'', PStr ''string''), (''required'', PBool True)])])]"
  let ?r = "\<lparr>is_valid = False, confidence = ''Low'',
        reasoning = [''Type validation: Valid number'', ''Value 1500.0 is above maximum 1000''],
        suggested_correction = PInt 1000\<rparr>"
  let ?out = "[(''amount'', PDict [(''value'', PInt 1500), (''confidence'', PStr ''Low''),
          (''reasoning'', PList [PStr ''Type validation: Valid number'',
                                 PStr ''Value 1500.0 is above maximum 1000'']),
          (''is_valid'', PBool False), (''suggested_correction'', PInt 1000)]),
        (''id'', PDict [(''value'', PNone), (''confidence'', PStr ''Low''),
          (''reasoning'', PList [PStr ''Required field is missing'']), (''is_valid'', PBool False)])]"
  have run1: "validate_against_template sample_rt ''amount'' (PInt 1500) ?t = Inr ?r"
    by code_simp
  have run2: "enhance_confidence_with_template sample_rt [(''amount'', PInt 1500)] ?t = Inr ?out"
    by code_simp
  note w = verdict_invariant [of sample_rt "''amount''" "PInt 1500" ?t ?r "[(''amount'', PInt 1500)]" ?out]
  from w run1 have a: "verdict_ok ?r"
    by blast
  from w run2 have "\<forall>e \<in> snd ` set ?out. entry_ok e"
    by blast
  then have b: "list_all entry_ok (map snd ?out)"
    by (simp only: list_all_iff set_map)
  from run1 run2 a b show ?thesis
    by simp
qed

section \<open>The flattened result (C6)\<close>

text \<open>
  Claim C6 says that for every enhanced-results mapping the flat mapping has one key per
  field, one \<^verbatim>\<open>_confidence\<close> key per field, one \<^verbatim>\<open>_reasoning\<close> key per field with reasoning
  and one \<^verbatim>\<open>_overall_confidence\<close> key, and that values and confidences can be read back from
  it. The keys are built by appending a suffix to the field name and nothing keeps two of
  them apart: with the fields \<^verbatim>\<open>score\<close> and \<^verbatim>\<open>score_confidence\<close> the key
  \<^verbatim>\<open>score_confidence\<close> is written twice, the flat mapping has four keys instead of five, and
  the confidence \<open>High\<close> of \<^verbatim>\<open>score\<close> is gone.
\<close>

theorem flattening_collision_counterexample:
  "format_confidence_results
     [(''score'', PDict [(''value'', PInt 7), (''confidence'', PStr ''High''),
                       (''reasoning'', PList []), (''is_valid'', PBool True)]),
      (''score_confidence'', PDict [(''value'', PStr ''n/a''), (''confidence'', PStr ''Low''),
                       (''reasoning'', PList []), (''is_valid'', PBool False)])] True =
   Inr [(''score'', PInt 7), (''score_confidence'', PStr ''n/a''),
        (''score_confidence_confidence'', PStr ''Low''), (''_overall_confidence'', PStr ''Low'')]"
  by code_simp

text \<open>
  Claim C6, amended. Whenever the keys that the flattening writes are pairwise different
  (no field name is another field's name followed by \<^verbatim>\<open>_confidence\<close> or \<^verbatim>\<open>_reasoning\<close>, and
  none of the keys is \<^verbatim>\<open>_overall_confidence\<close>) and \<^verbatim>\<open>format_confidence_results\<close> returns,
  the flat mapping has exactly these keys, each once and in this order, followed by the one
  key \<^verbatim>\<open>_overall_confidence\<close>; under the name of a field it holds the field's value, under the
  name with \<^verbatim>\<open>_confidence\<close> the field's confidence, and under \<^verbatim>\<open>_overall_confidence\<close> the
  overall confidence of the mapping.
\<close>

theorem flattening_without_collisions:
  assumes "format_confidence_results er incl = Inr out"
    and "distinct (flat_keys incl er @ [''_overall_confidence''])"
  shows "map fst out = flat_keys incl er @ [''_overall_confidence''] \<and>
     (\<forall>p \<in> set er.
        py_subscript (snd p) ''value'' = Inr (entry_value (snd p)) \<and>
        py_subscript (snd p) ''confidence'' = Inr (entry_confidence (snd p)) \<and>
        map_of out (fst p) = Some (entry_value (snd p)) \<and>
        map_of out (fst p @ ''_confidence'') = Some (entry_confidence (snd p))) \<and>
     (\<exists>c. calculate_overall_confidence er = Inr c \<and>
          map_of out ''_overall_confidence'' = Some (PStr c))"
proof -
  from assms(1) obtain formatted c where
    ff: "format_fields incl er [] = Inr formatted"
    and c: "calculate_overall_confidence er = Inr c"
    and out: "out = AList.update ''_overall_confidence'' (PStr c) formatted"
    by (auto simp: format_confidence_results_def split: sum.splits)
  from assms(2) have d: "distinct (map fst [] @ flat_keys incl er)"
    and fresh: "''_overall_confidence'' \<notin> set (flat_keys incl er)"
    by simp_all
  from format_fields_flat [OF ff d] have
    keys: "map fst formatted = flat_keys incl er"
    and vals: "\<forall>p \<in> set er. map_of formatted (fst p) = Some (entry_value (snd p)) \<and>
                  map_of formatted (fst p @ ''_confidence'') = Some (entry_confidence (snd p))"
    by simp_all
  have k: "map fst out = flat_keys incl er @ [''_overall_confidence'']"
    using fresh by (simp add: out update_keys keys)
  have mem: "fst p \<in> set (flat_keys incl er)" "fst p @ ''_confidence'' \<in> set (flat_keys incl er)"
    if "p \<in> set er" for p
    using that by (auto simp: flat_keys_def field_keys_def)
  have "map_of out (fst p) = map_of formatted (fst p) \<and>
        map_of out (fst p @ ''_confidence'') = map_of formatted (fst p @ ''_confidence'')"
    if "p \<in> set er" for p
    using mem [OF that] fresh by (auto simp: out map_of_update_alist)
  with vals format_fields_reads [OF ff] c k show ?thesis
    by (auto simp: out map_of_update_alist)
qed

theorem flattening_without_collisions_witness:
  "format_confidence_results
     [(''id'', PDict [(''value'', PStr ''x''), (''confidence'', PStr ''High''),
         (''reasoning'', PList [PStr ''Type validation: Valid string'']), (''is_valid'', PBool True)]),
      (''zz'', PDict [(''value'', PInt 3), (''confidence'', PStr ''Low''),
         (''reasoning'', PList []), (''is_valid'', PBool False)])] True =
   Inr [(''id'', PStr ''x''), (''id_confidence'', PStr ''High''),
        (''id_reasoning'', PStr ''Type validation: Valid string''),
        (''zz'', PInt 3), (''zz_confidence'', PStr ''Low''),
        (''_overall_confidence'', PStr ''Low'')] \<and>
   flat_keys True
     [(''id'', PDict [(''value'', PStr ''x''), (''confidence'', PStr ''High''),
         (''reasoning'', PList [PStr ''Type validation: Valid string'']), (''is_valid'', PBool True)]),
      (''zz'', PDict [(''value'', PInt 3), (''confidence'', PStr ''Low''),
         (''reasoning'', PList []), (''is_valid'', PBool False)])] @ [''_overall_confidence''] =
   [''id'', ''id_confidence'', ''id_reasoning'', ''zz'', ''zz_confidence'', ''_overall_confidence'']"
proof -
  let ?er = "[(''id'', PDict [(''value'', PStr ''x''), (''confidence'', PStr ''High''),
         (''reasoning'', PList [PStr ''Type validation: Valid string'']), (''is_valid'', PBool True)]),
      (''zz'', PDict [(''value'', PInt 3), (''confidence'', PStr ''Low''),
         (''reasoning'', PList []), (''is_valid'', PBool False)])]"
  let ?out = "[(''id'', PStr ''x''), (''id_confidence'', PStr ''High''),
        (''id_reasoning'', PStr ''Type validation: Valid string''),
        (''zz'', PInt 3), (''zz_confidence'', PStr ''Low''),
        (''_overall_confidence'', PStr ''Low'')]"
  have run: "format_confidence_results ?er True = Inr ?out"
    by code_simp
  have d: "distinct (flat_keys True ?er @ [''_overall_confidence''])"
    by code_simp
  from flattening_without_collisions [OF run d]
  have "map fst ?out = flat_keys True ?er @ [''_overall_confidence'']"
    by blast
  with run show ?thesis
    by simp
qed

section \<open>Internal fields (C7)\<close>

text \<open>
  Claim C7 says that no name starting with an underscore is a key of the output of
  \<^verbatim>\<open>enhance_confidence_with_template\<close>, nor (but for \<^verbatim>\<open>_overall_confidence\<close>) of the formatted
  result. The first loop skips such names (``Skip internal fields''), the sweep over the
  template's fields does not: a required field of the template whose name starts with an
  underscore is put into the output as missing, even when the extracted data has it, and
  from there into the formatted result.
\<close>

theorem internal_required_field_in_output:
  "enhance_confidence_with_template sample_rt [(''_internal'', PStr ''x'')]
     [(''fields'', PDict [(''_internal'', PDict [(''type'', PStr ''string''),
                                                 (''required'', PBool True)])])] =
   Inr [(''_internal'', PDict [(''value'', PNone), (''confidence'', PStr ''Low''),
          (''reasoning'', PList [PStr ''Required field is missing'']), (''is_valid'', PBool False)])] \<and>
   format_confidence_results
     [(''_internal'', PDict [(''value'', PNone), (''confidence'', PStr ''Low''),
          (''reasoning'', PList [PStr ''Required field is missing'']), (''is_valid'', PBool False)])]
     True =
   Inr [(''_internal'', PNone), (''_internal_confidence'', PStr ''Low''),
        (''_internal_reasoning'', PStr ''Required field is missing''),
        (''_overall_confidence'', PStr ''Low'')]"
  by code_simp

section \<open>Idempotence of the verdicts (C9)\<close>

text \<open>
  Claim C9. If \<^verbatim>\<open>enhance_confidence_with_template\<close> returns an output for some extracted data
  and a template, then it also returns one for the \<^verbatim>\<open>value\<close> entries of that output, fed back
  as extracted data against the same template; the two outputs have the same fields, and
  each field has the same \<^verbatim>\<open>is_valid\<close> and the same \<^verbatim>\<open>confidence\<close> in both.
\<close>

theorem enhance_idempotent_on_verdicts:
  assumes run: "enhance_confidence_with_template rt d t = Inr out"
    and dk: "fields_keys_distinct t"
  shows "\<exists>out'. enhance_confidence_with_template rt (feed_back out) t = Inr out' \<and>
           (\<forall>n. map_option verdict_of (map_of out' n) = map_option verdict_of (map_of out n))"
proof -
  from enhance_split [OF run] obtain acc fs where
    acc: "process_fields rt t d [] = Inr acc"
    and sw: "sweep_required fs acc = Inr out"
    and fs: "map_of t ''fields'' = Some (PDict fs) \<or> (map_of t ''fields'' = None \<and> fs = [])"
    by blast
  from dk fs have dfs: "distinct (map fst fs)"
    by (auto simp: fields_keys_distinct_def)
  let ?R = "{n. \<exists>fd rq. (n, fd) \<in> set fs \<and> py_get fd ''required'' (PBool False) = Inr rq \<and> truthy rq}"
  have dout: "distinct (map fst out)"
    by (rule enhance_distinct [OF run])
  have kacc: "set (map fst acc) = {n \<in> fst ` set d. \<not> starts_with n ''_''}"
    using process_fields_keys [OF acc] by simp
  have kout: "set (map fst out) = set (map fst acc) \<union> ?R"
    by (rule sweep_required_keys [OF sw])
  have cls: "(\<exists>v r. validate_against_template rt n v t = Inr r \<and> e = enhanced_entry v r) \<or>
             (e = missing_entry \<and> n \<in> ?R)" if "map_of out n = Some e" for n e
  proof -
    from sweep_required_entry [OF sw that]
    consider (a) "map_of acc n = Some e" | (b) "e = missing_entry" "n \<in> ?R"
      by blast
    then show ?thesis
    proof cases
      case a
      from process_fields_entry [OF acc a] show ?thesis by auto
    next
      case b
      then show ?thesis by blast
    qed
  qed
  have req: "validate_against_template rt n PNone t =
      Inr \<lparr>is_valid = False, confidence = ''Low'',
           reasoning = [''Required field is missing or empty''], suggested_correction = PNone\<rparr>"
    if "n \<in> ?R" for n
  proof -
    from that obtain fd rq where m: "(n, fd) \<in> set fs"
      and g: "py_get fd ''required'' (PBool False) = Inr rq" and tr: "truthy rq"
      by blast
    from g obtain fdd where fd: "fd = PDict fdd"
      by (cases fd) auto
    from m fs have tf: "map_of t ''fields'' = Some (PDict fs)"
      by auto
    from dfs m have "map_of fs n = Some (PDict fdd)"
      by (simp add: fd)
    from validate_against_template_empty [OF tf this, of PNone rt] g tr show ?thesis
      by (simp add: fd)
  qed
  have val2: "\<exists>r'. validate_against_template rt n (entry_value e) t = Inr r' \<and>
                verdict_of (enhanced_entry (entry_value e) r') = verdict_of e"
    if "map_of out n = Some e" for n e
  proof -
    from cls [OF that]
    consider (a) v r where "validate_against_template rt n v t = Inr r" "e = enhanced_entry v r"
      | (b) "e = missing_entry" "n \<in> ?R"
      by blast
    then show ?thesis
    proof cases
      case a
      then show ?thesis by (simp add: entry_value_simps)
    next
      case b
      with req [OF b(2)] show ?thesis by (simp add: entry_value_simps verdict_of_simps)
    qed
  qed
  let ?d2 = "feed_back out"
  have d2: "distinct (map fst ?d2)"
    using dout by (simp add: feed_back_def comp_def)
  have mem2: "(n, entry_value e) \<in> set ?d2" if "map_of out n = Some e" for n e
    using map_of_SomeD [OF that] by (force simp: feed_back_def)
  have tot: "\<forall>p \<in> set ?d2. \<not> starts_with (fst p) ''_'' \<longrightarrow>
      (\<exists>r. validate_against_template rt (fst p) (snd p) t = Inr r)"
  proof (intro ballI impI)
    fix p
    assume "p \<in> set ?d2"
    then obtain n e where ne: "(n, e) \<in> set out" and p: "p = (n, entry_value e)"
      by (auto simp: feed_back_def)
    from dout ne have "map_of out n = Some e" by simp
    from val2 [OF this] p show "\<exists>r. validate_against_template rt (fst p) (snd p) t = Inr r"
      by auto
  qed
  from process_fields_total [OF tot] obtain acc2 where
    acc2: "process_fields rt t ?d2 [] = Inr acc2"
    by blast
  from sweep_required_total [OF sw] obtain out2 where sw2: "sweep_required fs acc2 = Inr out2"
    by blast
  have run2: "enhance_confidence_with_template rt ?d2 t = Inr out2"
    by (rule enhance_join [OF acc2 sw2 fs])
  have "fst ` set ?d2 = fst ` set out"
    by (force simp: feed_back_def)
  with process_fields_keys [OF acc2]
  have kacc2: "set (map fst acc2) = {n \<in> set (map fst out). \<not> starts_with n ''_''}"
    by simp
  have kout2: "set (map fst out2) = set (map fst acc2) \<union> ?R"
    by (rule sweep_required_keys [OF sw2])
  from kacc have nous: "\<forall>n \<in> set (map fst acc). \<not> starts_with n ''_''"
    by blast
  have keq: "set (map fst out2) = set (map fst out)"
    unfolding kout2 kacc2 kout using nous by blast
  have main: "map_option verdict_of (map_of out2 n) = map_option verdict_of (map_of out n)" for n
  proof (cases "map_of out n")
    case None
    then have "n \<notin> set (map fst out)"
      by (simp add: map_of_eq_None_iff)
    with keq have "map_of out2 n = None"
      by (simp add: map_of_eq_None_iff)
    with None show ?thesis by simp
  next
    case (Some e)
    show ?thesis
    proof (cases "starts_with n ''_''")
      case False
      from val2 [OF Some] obtain r' where
        v: "validate_against_template rt n (entry_value e) t = Inr r'"
        and eqv: "verdict_of (enhanced_entry (entry_value e) r') = verdict_of e"
        by blast
      from process_fields_lookup [OF acc2 d2 mem2 [OF Some] False v]
      have "map_of acc2 n = Some (enhanced_entry (entry_value e) r')" .
      from sweep_required_keeps [OF sw2 this] eqv Some show ?thesis
        by simp
    next
      case True
      with nous kacc2 have n1: "n \<notin> set (map fst acc)" and n2: "n \<notin> set (map fst acc2)"
        by blast+
      from n1 have "map_of acc n = None"
        by (simp add: map_of_eq_None_iff)
      with sweep_required_entry [OF sw Some] have e: "e = missing_entry"
        by auto
      from map_of_key [OF Some] keq have "n \<in> set (map fst out2)"
        by simp
      then have "map_of out2 n \<noteq> None"
        by (simp add: map_of_eq_None_iff)
      then obtain e2 where e2: "map_of out2 n = Some e2"
        by blast
      from n2 have "map_of acc2 n = None"
        by (simp add: map_of_eq_None_iff)
      with sweep_required_entry [OF sw2 e2] have "e2 = missing_entry"
        by auto
      with e e2 Some show ?thesis by simp
    qed
  qed
  from run2 main show ?thesis
    by blast
qed

theorem enhance_idempotent_on_verdicts_witness:
  "enhance_confidence_with_template sample_rt [(''title'', PStr ''Report''), (''_rev'', PInt 2)]
     [(''fields'', PDict [(''id'', PDict [(''type'', PStr ''string''), (''required'', PBool True)]),
                          (''title'', PDict [(''type'', PStr ''string'')])])] =
   Inr [(''title'', PDict [(''value'', PStr ''Report''), (''confidence'', PStr ''High''),
                           (''reasoning'', PList [PStr ''Type validation: Valid string'']),
                           (''is_valid'', PBool True)]),
        (''id'', PDict [(''value'', PNone), (''confidence'', PStr ''Low''),
                        (''reasoning'', PList [PStr ''Required field is missing'']),
                        (''is_valid'', PBool False)])] \<and>
   enhance_confidence_with_template sample_rt [(''title'', PStr ''Report''), (''id'', PNone)]
     [(''fields'', PDict [(''id'', PDict [(''type'', PStr ''string''), (''required'', PBool True)]),
                          (''title'', PDict [(''type'', PStr ''string'')])])] =
   Inr [(''title'', PDict [(''value'', PStr ''Report''), (''confidence'', PStr ''High''),
                           (''reasoning'', PList [PStr ''Type validation: Valid string'']),
                           (''is_valid'', PBool True)]),
        (''id'', PDict [(''value'', PNone), (''confidence'', PStr ''Low''),
                        (''reasoning'', PList [PStr ''Required field is missing or empty'']),
                        (''is_valid'', PBool False)])] \<and>
   verdict_of (PDict [(''value'', PNone), (''confidence'', PStr ''Low''),
                      (''reasoning'', PList [PStr ''Required field is missing or empty'']),
                      (''is_valid'', PBool False)]) =
   verdict_of (PDict [(''value'', PNone), (''confidence'', PStr ''Low''),
                      (''reasoning'', PList [PStr ''Required field is missing'']),
                      (''is_valid'', PBool False)])"
proof -
  let ?t = "[(''fields'', PDict [(''id'', PDict [(''type'', PStr ''string''), (''required'', PBool True)]),
                          (''title'', PDict [(''type'', PStr ''string'')])])]"
  let ?title = "PDict [(''value'', PStr ''Report''), (''confidence'', PStr ''High''),
                           (''reasoning'', PList [PStr ''Type validation: Valid string'']),
                           (''is_valid'', PBool True)]"
  let ?id1 = "PDict [(''value'', PNone), (''confidence'', PStr ''Low''),
                        (''reasoning'', PList [PStr ''Required field is missing'']),
                        (''is_valid'', PBool False)]"
  let ?id2 = "PDict [(''value'', PNone), (''confidence'', PStr ''Low''),
                        (''reasoning'', PList [PStr ''Required field is missing or empty'']),
                        (''is_valid'', PBool False)]"
  have run1: "enhance_confidence_with_template sample_rt
        [(''title'', PStr ''Report''), (''_rev'', PInt 2)] ?t = Inr [(''title'', ?title), (''id'', ?id1)]"
    by code_simp
  have dk: "fields_keys_distinct ?t"
    by code_simp
  have fb: "feed_back [(''title'', ?title), (''id'', ?id1)] = [(''title'', PStr ''Report''), (''id'', PNone)]"
    by code_simp
  have run2: "enhance_confidence_with_template sample_rt
        [(''title'', PStr ''Report''), (''id'', PNone)] ?t = Inr [(''title'', ?title), (''id'', ?id2)]"
    by code_simp
  from enhance_idempotent_on_verdicts [OF run1 dk] run2
  have "\<forall>n. map_option verdict_of (map_of [(''title'', ?title), (''id'', ?id2)] n) =
            map_option verdict_of (map_of [(''title'', ?title), (''id'', ?id1)] n)"
    unfolding fb by simp
  then have "map_option verdict_of (map_of [(''title'', ?title), (''id'', ?id2)] ''id'') =
            map_option verdict_of (map_of [(''title'', ?title), (''id'', ?id1)] ''id'')"
    by (rule spec)
  then have "verdict_of ?id2 = verdict_of ?id1"
    by simp
  with run1 run2 show ?thesis
    by simp
qed

section \<open>Exceptions (C8)\<close>

text \<open>
  Claim C8 says that no exception leaves the core operations, whatever the input. Only
  \<^verbatim>\<open>validate_field_type\<close> has a handler, and it covers its own body and the classes
  \<^verbatim>\<open>ValueError\<close> and \<^verbatim>\<open>TypeError\<close> only. A bound in the template that is not a number makes
  the comparison in \<^verbatim>\<open>validate_against_template\<close> raise \<^verbatim>\<open>TypeError\<close>, which nothing
  catches, so it leaves \<^verbatim>\<open>enhance_confidence_with_template\<close> as well; a type in the template
  that is not a string makes \<^verbatim>\<open>field_type.lower()\<close> raise \<^verbatim>\<open>AttributeError\<close>, which the
  handler does not catch.
\<close>

theorem exception_escapes_counterexample:
  "validate_against_template sample_rt ''amount'' (PInt 5)
     [(''fields'', PDict [(''amount'', PDict [(''type'', PStr ''number''), (''min'', PStr ''0'')])])] =
   Inl (Raise TypeError
         ([CHR 0x27] @ ''<'' @ [CHR 0x27] @ '' not supported between instances of '' @
          [CHR 0x27] @ ''float'' @ [CHR 0x27] @ '' and '' @ [CHR 0x27] @ ''str'' @ [CHR 0x27])) \<and>
   enhance_confidence_with_template sample_rt [(''amount'', PInt 5)]
     [(''fields'', PDict [(''amount'', PDict [(''type'', PStr ''number''), (''min'', PStr ''0'')])])] =
   Inl (Raise TypeError
         ([CHR 0x27] @ ''<'' @ [CHR 0x27] @ '' not supported between instances of '' @
          [CHR 0x27] @ ''float'' @ [CHR 0x27] @ '' and '' @ [CHR 0x27] @ ''str'' @ [CHR 0x27])) \<and>
   validate_against_template sample_rt ''amount'' (PInt 5)
     [(''fields'', PDict [(''amount'', PDict [(''type'', PNone)])])] =
   Inl (Raise AttributeError
         ([CHR 0x27] @ ''NoneType'' @ [CHR 0x27] @ '' object has no attribute '' @
          [CHR 0x27] @ ''lower'' @ [CHR 0x27]))"
  by code_simp

text \<open>
  Claim C8, amended. No exception leaves the operations on well-formed input.
  \<^item> \<^verbatim>\<open>validate_field_type\<close> returns a pair for every string type name and every value that
    fits a double; an unknown type name gives ``Unknown field type'', and a \<^verbatim>\<open>ValueError\<close> or
    \<^verbatim>\<open>TypeError\<close> of the conversion to a float gives ``Validation failed'' with its message.
  \<^item> \<^verbatim>\<open>validate_against_template\<close>, for a template whose fields are a dictionary, returns the
    invalid \<open>Low\<close> result ``not found in template'' for a field that is not declared, and
    returns a result for a declared field whose declaration is well formed for the value.
  \<^item> \<^verbatim>\<open>enhance_confidence_with_template\<close> returns when moreover every declaration is a
    dictionary and the declaration of every processed field is well formed for its value;
    \<^verbatim>\<open>calculate_overall_confidence\<close> and \<^verbatim>\<open>format_confidence_results\<close> return on its output.
  Nothing is said here about an integer that does not fit a double.
\<close>

theorem no_exception_on_well_formed_input:
  "(fits_double v \<longrightarrow> (\<exists>b reason. validate_field_type rt v (PStr ty) = Inr (b, reason))) \<and>
   (v \<noteq> PNone \<and> str_lower ty \<notin> set [''string'', ''number'', ''date'', ''boolean'', ''enum''] \<longrightarrow>
      validate_field_type rt v (PStr ty) = Inr (False, ''Unknown field type: '' @ ty)) \<and>
   (v \<noteq> PNone \<and> str_lower ty = ''number'' \<and> py_float rt v = Inl (Raise c m) \<and>
    (c = ValueError \<or> c = TypeError) \<longrightarrow>
      validate_field_type rt v (PStr ty) = Inr (False, ''Validation failed: '' @ m)) \<and>
   (template_fields t = PDict fs \<and> map_of fs n = None \<longrightarrow>
      validate_against_template rt n v t =
        Inr \<lparr>is_valid = False, confidence = ''Low'',
             reasoning = [''Field '' @ [CHR 0x27] @ n @ [CHR 0x27] @ '' not found in template''],
             suggested_correction = PNone\<rparr>) \<and>
   (template_fields t = PDict fs \<and> map_of fs n = Some fd \<and> well_formed_decl rt v fd \<longrightarrow>
      (\<exists>r. validate_against_template rt n v t = Inr r)) \<and>
   (template_fields t = PDict fs \<and> (\<forall>p \<in> set fs. \<exists>d. snd p = PDict d) \<and>
    (\<forall>p \<in> set d. \<not> starts_with (fst p) ''_'' \<longrightarrow>
       (case map_of fs (fst p) of None \<Rightarrow> True | Some fd \<Rightarrow> well_formed_decl rt (snd p) fd)) \<longrightarrow>
      (\<exists>out. enhance_confidence_with_template rt d t = Inr out \<and>
         (\<exists>c. calculate_overall_confidence out = Inr c) \<and>
         (\<exists>flat. format_confidence_results out incl = Inr flat)))"
proof (intro conjI impI)
  assume "fits_double v"
  then show "\<exists>b reason. validate_field_type rt v (PStr ty) = Inr (b, reason)"
    by (rule validate_field_type_total)
next
  assume "v \<noteq> PNone \<and> str_lower ty \<notin> set [''string'', ''number'', ''date'', ''boolean'', ''enum'']"
  then show "validate_field_type rt v (PStr ty) = Inr (False, ''Unknown field type: '' @ ty)"
    by (simp add: validate_field_type_unknown)
next
  assume "v \<noteq> PNone \<and> str_lower ty = ''number'' \<and> py_float rt v = Inl (Raise c m) \<and>
    (c = ValueError \<or> c = TypeError)"
  then show "validate_field_type rt v (PStr ty) = Inr (False, ''Validation failed: '' @ m)"
    by (simp add: validate_field_type_coercion)
next
  assume a: "template_fields t = PDict fs \<and> map_of fs n = None"
  then have "n \<notin> set (map fst fs)"
    by (simp add: map_of_eq_None_iff)
  with a show "validate_against_template rt n v t =
        Inr \<lparr>is_valid = False, confidence = ''Low'',
             reasoning = [''Field '' @ [CHR 0x27] @ n @ [CHR 0x27] @ '' not found in template''],
             suggested_correction = PNone\<rparr>"
    by (simp add: validate_against_template_def initial_result_def)
next
  assume "template_fields t = PDict fs \<and> map_of fs n = Some fd \<and> well_formed_decl rt v fd"
  then show "\<exists>r. validate_against_template rt n v t = Inr r"
    using validate_against_template_total [where t = t and fs = fs and n = n and rt = rt and v = v] by simp
next
  assume a: "template_fields t = PDict fs \<and> (\<forall>p \<in> set fs. \<exists>d. snd p = PDict d) \<and>
    (\<forall>p \<in> set d. \<not> starts_with (fst p) ''_'' \<longrightarrow>
       (case map_of fs (fst p) of None \<Rightarrow> True | Some fd \<Rightarrow> well_formed_decl rt (snd p) fd))"
  then obtain out where out: "enhance_confidence_with_template rt d t = Inr out"
    using enhance_total [where t = t and fs = fs and d = d and rt = rt] by blast
  from enhance_output_usable [OF out, where incl = incl] out
  show "\<exists>out. enhance_confidence_with_template rt d t = Inr out \<and>
         (\<exists>c. calculate_overall_confidence out = Inr c) \<and>
         (\<exists>flat. format_confidence_results out incl = Inr flat)"
    by blast
qed

theorem no_exception_on_well_formed_input_witness:
  "validate_field_type sample_rt (PStr ''12a'') (PStr ''Number'') =
     Inr (False, ''Validation failed: could not convert string to float: '' @
                 [CHR 0x27] @ ''12a'' @ [CHR 0x27]) \<and>
   validate_field_type sample_rt (PStr ''x'') (PStr ''colour'') =
     Inr (False, ''Unknown field type: colour'') \<and>
   validate_against_template sample_rt ''zz'' (PInt 3)
     [(''fields'', PDict [(''amount'', PDict [(''type'', PStr ''number''), (''min'', PInt 0),
                                              (''max'', PInt 1000)])])] =
     Inr \<lparr>is_valid = False, confidence = ''Low'',
          reasoning = [''Field '' @ [CHR 0x27] @ ''zz'' @ [CHR 0x27] @ '' not found in template''],
          suggested_correction = PNone\<rparr> \<and>
   (\<exists>r. validate_against_template sample_rt ''amount'' (PInt 1500)
     [(''fields'', PDict [(''amount'', PDict [(''type'', PStr ''number''), (''min'', PInt 0),
                                              (''max'', PInt 1000)])])] = Inr r) \<and>
   (\<exists>out. enhance_confidence_with_template sample_rt [(''amount'', PInt 1500), (''zz'', PInt 3)]
     [(''fields'', PDict [(''amount'', PDict [(''type'', PStr ''number''), (''min'', PInt 0),
                                              (''max'', PInt 1000)])])] = Inr out \<and>
      (\<exists>c. calculate_overall_confidence out = Inr c) \<and>
      (\<exists>flat. format_confidence_results out True = Inr flat))"
proof -
  let ?fd = "PDict [(''type'', PStr ''number''), (''min'', PInt 0), (''max'', PInt 1000)]"
  let ?fs = "[(''amount'', ?fd)]"
  let ?t = "[(''fields'', PDict ?fs)]"
  let ?m = "''could not convert string to float: '' @ [CHR 0x27] @ ''12a'' @ [CHR 0x27]"
  have tf: "template_fields ?t = PDict ?fs"
    by (simp add: template_fields_def)
  have h3: "PStr ''12a'' \<noteq> PNone \<and> str_lower ''Number'' = ''number'' \<and>
      py_float sample_rt (PStr ''12a'') = Inl (Raise ValueError ?m) \<and>
      (ValueError = ValueError \<or> ValueError = TypeError)"
    by code_simp
  have h2: "PStr ''x'' \<noteq> PNone \<and>
      str_lower ''colour'' \<notin> set [''string'', ''number'', ''date'', ''boolean'', ''enum'']"
    by code_simp
  have h4: "template_fields ?t = PDict ?fs \<and> map_of ?fs ''zz'' = None"
    using tf by simp
  have wf: "well_formed_decl sample_rt (PInt 1500) ?fd"
    by code_simp
  have h5: "template_fields ?t = PDict ?fs \<and> map_of ?fs ''amount'' = Some ?fd \<and>
      well_formed_decl sample_rt (PInt 1500) ?fd"
    using tf wf by simp
  have h6: "template_fields ?t = PDict ?fs \<and> (\<forall>p \<in> set ?fs. \<exists>d. snd p = PDict d) \<and>
    (\<forall>p \<in> set [(''amount'', PInt 1500), (''zz'', PInt 3)]. \<not> starts_with (fst p) ''_'' \<longrightarrow>
       (case map_of ?fs (fst p) of None \<Rightarrow> True
        | Some fd \<Rightarrow> well_formed_decl sample_rt (snd p) fd))"
    using tf wf by simp
  note w = no_exception_on_well_formed_input
  from w [where rt = sample_rt and v = "PStr ''12a''" and ty = "''Number''" and c = ValueError
            and m = ?m] h3
  have c3: "validate_field_type sample_rt (PStr ''12a'') (PStr ''Number'') =
      Inr (False, ''Validation failed: '' @ ?m)"
    by blast
  from w [where rt = sample_rt and v = "PStr ''x''" and ty = "''colour''"] h2
  have c2: "validate_field_type sample_rt (PStr ''x'') (PStr ''colour'') =
      Inr (False, ''Unknown field type: '' @ ''colour'')"
    by blast
  from w [where rt = sample_rt and v = "PInt 3" and t = ?t and fs = ?fs and n = "''zz''"] h4
  have c4: "validate_against_template sample_rt ''zz'' (PInt 3) ?t =
      Inr \<lparr>is_valid = False, confidence = ''Low'',
           reasoning = [''Field '' @ [CHR 0x27] @ ''zz'' @ [CHR 0x27] @ '' not found in template''],
           suggested_correction = PNone\<rparr>"
    by blast
  from w [where rt = sample_rt and v = "PInt 1500" and t = ?t and fs = ?fs and n = "''amount''"
            and fd = ?fd] h5
  have c5: "\<exists>r. validate_against_template sample_rt ''amount'' (PInt 1500) ?t = Inr r"
    by blast
  from w [where rt = sample_rt and t = ?t and fs = ?fs
            and d = "[(''amount'', PInt 1500), (''zz'', PInt 3)]" and incl = True] h6
  have c6: "\<exists>out. enhance_confidence_with_template sample_rt
        [(''amount'', PInt 1500), (''zz'', PInt 3)] ?t = Inr out \<and>
      (\<exists>c. calculate_overall_confidence out = Inr c) \<and>
      (\<exists>flat. format_confidence_results out True = Inr flat)"
    by blast
  from c2 c3 c4 c5 c6 show ?thesis
    by simp
qed

text \<open>
  The input that is left out above: an integer that does not fit a double makes \<^verbatim>\<open>float\<close>
  raise \<^verbatim>\<open>OverflowError\<close> inside the \<^verbatim>\<open>try\<close> block, and the handler does not list this class.
\<close>

lemma oversized_integer_overflows:
  "validate_field_type sample_rt (PInt (2 ^ 1024)) (PStr ''number'') =
     Inl (Raise OverflowError ''int too large to convert to float'')"
  by code_simp

end
